theory Spec2Isabelle
  imports Main "HOL-Library.Word"
begin

unbundle bit_operations_syntax

section \<open>JavaScript values and number operations\<close>

text \<open>
  The renderer is written in JavaScript. Numbers that the code handles are integer-valued
  doubles; they are modelled as \<open>int\<close>. A read past the end of an array yields
  \<open>undefined\<close>, modelled as \<open>None\<close>. The bitwise operators first convert
  their operands with ToInt32; \<open>>>> 0\<close> converts with ToUint32. Typed arrays
  (\<open>Uint32Array\<close>, \<open>Int16Array\<close>, \<open>Int8Array\<close>) are lists of words.

  Double arithmetic on integers is exact below \<open>2^53\<close>. The one product that passes
  this bound is the multiplication of the tile checksum, which is modelled with its rounding
  (\<open>js_mul\<close>). All other sums and products are over register fields, tile indices and
  pixel coordinates, and are the integer operations.

  A method keeps its name without the leading underscore; \<open>update\<close> and the
  constructor carry the name of their class (\<open>TileCache_update\<close>,
  \<open>TileCache_new\<close>). The body of a loop is a step function that is folded over the
  indices of the loop. A plain array or typed array that a constructor allocates is a list of
  that size; the predicates \<open>pm_wf\<close>, \<open>tc_wf\<close>, \<open>bg_wf\<close> and
  \<open>sl_wf\<close> state the sizes, and all indexed writes of the code are below them.
\<close>

datatype js_error = TypeError

definition js_nth :: "'a list \<Rightarrow> nat \<Rightarrow> 'a option" where
  "js_nth xs i = (if i < length xs then Some (xs ! i) else None)"

definition toNumber0 :: "int option \<Rightarrow> int" where
  \<comment> \<open>the integer a bitwise operator sees: \<open>undefined\<close> converts to 0\<close>
  "toNumber0 v = (case v of None \<Rightarrow> 0 | Some n \<Rightarrow> n)"

definition toInt32 :: "int \<Rightarrow> int" where
  "toInt32 v = sint (word_of_int v :: 32 word)"

definition toUint32 :: "int \<Rightarrow> int" where
  "toUint32 v = uint (word_of_int v :: 32 word)"

definition js_and :: "int \<Rightarrow> int \<Rightarrow> int" where
  "js_and a b = toInt32 a AND toInt32 b"

definition js_or :: "int \<Rightarrow> int \<Rightarrow> int" where
  "js_or a b = toInt32 a OR toInt32 b"

definition js_xor :: "int \<Rightarrow> int \<Rightarrow> int" where
  "js_xor a b = toInt32 a XOR toInt32 b"

definition js_shr :: "int \<Rightarrow> nat \<Rightarrow> int" where
  \<comment> \<open>\<open>a >> n\<close>: arithmetic shift of the 32-bit value\<close>
  "js_shr a n = drop_bit n (toInt32 a)"

definition js_shl :: "int \<Rightarrow> nat \<Rightarrow> int" where
  "js_shl a n = toInt32 (push_bit n (toInt32 a))"

text \<open>
  The product of two numbers is the exact product rounded to a double: to 53 significant
  bits, ties to the even significand. On integers this is an integer function.
\<close>

function bitLength :: "int \<Rightarrow> nat" where
  "bitLength n = (if n \<le> 0 then 0 else Suc (bitLength (n div 2)))"
  by pat_completeness auto
termination
  by (relation "measure nat") auto

declare bitLength.simps [simp del]

definition roundDouble :: "int \<Rightarrow> int" where
  "roundDouble n =
     (let a = \<bar>n\<bar>; e = bitLength a - 53 in
      if e = 0 then n
      else let q = a div 2 ^ e; r = a mod 2 ^ e; half = 2 ^ (e - 1);
               q' = (if half < r \<or> (r = half \<and> odd q) then q + 1 else q)
           in sgn n * (q' * 2 ^ e))"

definition js_mul :: "int \<Rightarrow> int \<Rightarrow> int" where
  "js_mul a b = roundDouble (a * b)"

subsection \<open>Number formatting\<close>

definition digitChar :: "nat \<Rightarrow> char" where
  "digitChar d = ''0123456789abcdef'' ! d"

function digitsOf :: "nat \<Rightarrow> int \<Rightarrow> string" where
  "digitsOf b n =
     (if b < 2 \<or> n < int b then [digitChar (nat n)]
      else digitsOf b (n div int b) @ [digitChar (nat (n mod int b))])"
  by pat_completeness auto
termination
proof (relation "measure (\<lambda>(b, n). nat n)")
  show "wf (measure (\<lambda>(b, n). nat n))" by simp
next
  fix b :: nat and n :: int
  assume a: "\<not> (b < 2 \<or> n < int b)"
  then have "0 < n" "1 < int b" by auto
  then have "n div int b < n" by (rule int_div_less_self)
  then show "((b, n div int b), (b, n)) \<in> measure (\<lambda>(b, n). nat n)"
    using \<open>0 < n\<close> by simp
qed

declare digitsOf.simps [simp del]

definition numToString :: "nat \<Rightarrow> int \<Rightarrow> string" where
  \<comment> \<open>\<open>n.toString(radix)\<close> for an integer \<open>n\<close>\<close>
  "numToString radix n =
     (if n < 0 then CHR ''-'' # digitsOf radix (- n) else digitsOf radix n)"

definition padStart :: "nat \<Rightarrow> char \<Rightarrow> string \<Rightarrow> string" where
  "padStart n c s = replicate (n - length s) c @ s"

section \<open>PaletteManager\<close>

text \<open>
  A JavaScript \<open>Set\<close> of small numbers is a duplicate-free list in insertion order.
\<close>

definition setAdd :: "nat list \<Rightarrow> nat \<Rightarrow> nat list" where
  "setAdd s x = (if x \<in> set s then s else s @ [x])"

record palette_manager =
  prevBg :: "int option list"
  prevSpr :: "int option list"
  bgColors :: "string list"
  sprColors :: "string list"
  dirtyBgGroups :: "nat list"
  dirtySprGroups :: "nat list"

definition PaletteManager_new :: palette_manager where
  "PaletteManager_new =
     \<lparr>prevBg = replicate 16 (Some (- 1)), prevSpr = replicate 16 (Some (- 1)),
      bgColors = replicate 16 ''#000000'', sprColors = replicate 16 ''#000000'',
      dirtyBgGroups = [], dirtySprGroups = []\<rparr>"

definition toCSS :: "int option \<Rightarrow> string" where
  "toCSS packed =
     (let p = toNumber0 packed;
          r = js_and p 255;
          g = js_and (js_shr p 8) 255;
          b = js_and (js_shr p 16) 255
      in CHR ''#'' # padStart 6 CHR ''0'' (numToString 16 (js_or (js_or (js_shl r 16) (js_shl g 8)) b)))"

definition paletteStep :: "int list \<Rightarrow> int list \<Rightarrow> palette_manager \<Rightarrow> nat \<Rightarrow> palette_manager" where
  \<comment> \<open>the body of the loop of \<open>update\<close>, at index \<open>i\<close>\<close>
  "paletteStep bgPalette sprPalette pm i =
     (let pm1 = (if js_nth bgPalette i \<noteq> prevBg pm ! i
                 then pm\<lparr>bgColors := (bgColors pm)[i := toCSS (js_nth bgPalette i)],
                         prevBg := (prevBg pm)[i := js_nth bgPalette i],
                         dirtyBgGroups := setAdd (dirtyBgGroups pm) (drop_bit 2 i)\<rparr>
                 else pm)
      in if js_nth sprPalette i \<noteq> prevSpr pm1 ! i
         then pm1\<lparr>sprColors := (sprColors pm1)[i := toCSS (js_nth sprPalette i)],
                  prevSpr := (prevSpr pm1)[i := js_nth sprPalette i],
                  dirtySprGroups := setAdd (dirtySprGroups pm1) (drop_bit 2 i)\<rparr>
         else pm1)"

definition PaletteManager_update :: "palette_manager \<Rightarrow> int list \<Rightarrow> int list \<Rightarrow> palette_manager \<times> bool" where
  "PaletteManager_update pm bgPalette sprPalette =
     (let pm0 = pm\<lparr>dirtyBgGroups := [], dirtySprGroups := []\<rparr>;
          pm1 = foldl (paletteStep bgPalette sprPalette) pm0 [0..<16]
      in (pm1, 0 < length (dirtyBgGroups pm1) \<or> 0 < length (dirtySprGroups pm1)))"

definition getBgPaletteGroup :: "palette_manager \<Rightarrow> nat \<Rightarrow> string option list" where
  "getBgPaletteGroup pm n =
     (let base = push_bit 2 n
      in [js_nth (bgColors pm) base, js_nth (bgColors pm) (base + 1),
          js_nth (bgColors pm) (base + 2), js_nth (bgColors pm) (base + 3)])"

definition getSprPaletteGroup :: "palette_manager \<Rightarrow> nat \<Rightarrow> string option list" where
  "getSprPaletteGroup pm n =
     (let base = push_bit 2 n
      in [js_nth (sprColors pm) base, js_nth (sprColors pm) (base + 1),
          js_nth (sprColors pm) (base + 2), js_nth (sprColors pm) (base + 3)])"

definition getBackgroundColor :: "palette_manager \<Rightarrow> string option" where
  "getBackgroundColor pm = js_nth (bgColors pm) 0"

definition pm_wf :: "palette_manager \<Rightarrow> bool" where
  \<comment> \<open>the sizes the constructor allocates; every write of \<open>update\<close> is below them\<close>
  "pm_wf pm \<longleftrightarrow> length (prevBg pm) = 16 \<and> length (prevSpr pm) = 16
     \<and> length (bgColors pm) = 16 \<and> length (sprColors pm) = 16"

section \<open>TileCache\<close>

text \<open>
  Tile objects live in the emulator's heap. A tile reference is \<open>null\<close>,
  \<open>undefined\<close> or the identity of a Tile object; the store maps an identity to the
  object's \<open>pix\<close> array. Strict inequality \<open>!==\<close> on references compares identities.
\<close>

datatype tileref = Null | Undefined | Ref nat

type_synonym store = "nat \<Rightarrow> int list"

definition ref_at :: "tileref list \<Rightarrow> nat \<Rightarrow> tileref" where
  "ref_at xs i = (if i < length xs then xs ! i else Undefined)"

text \<open>
  \<open>_renderSheet\<close> paints a canvas and stores a data URL, and \<open>_updateStylesheet\<close>
  rewrites a style element. These browser effects are recorded as a trace of the calls of one
  \<open>update\<close>, with the sheet index, the tile base and the colours of each render.
\<close>

datatype effect = RenderSheet nat int "string option list" | UpdateStylesheet | ConsoleWarn

record tile_cache =
  tileChecksums :: "32 word list"
  prevBankRefs :: "tileref list"
  updatedSheets :: "nat list"
  prevBgBase :: int
  consecRegenFrames :: nat

definition TileCache_new :: tile_cache where
  "TileCache_new =
     \<lparr>tileChecksums = replicate 512 0, prevBankRefs = replicate 8 Null,
      updatedSheets = [], prevBgBase = - 1, consecRegenFrames = 0\<rparr>"

definition tc_wf :: "tile_cache \<Rightarrow> bool" where
  "tc_wf tc \<longleftrightarrow> length (tileChecksums tc) = 512 \<and> length (prevBankRefs tc) = 8"

definition hashStep :: "int list \<Rightarrow> int \<Rightarrow> nat \<Rightarrow> int" where
  \<comment> \<open>\<open>h ^= pix[i]; h = (h * 0x01000193) | 0\<close>\<close>
  "hashStep pix h i = toInt32 (js_mul (js_xor h (toNumber0 (js_nth pix i))) 16777619)"

definition hashPix :: "int list \<Rightarrow> int" where
  "hashPix pix = toUint32 (foldl (hashStep pix) 2166136261 [0..<64])"

definition getTileOffset :: "int \<Rightarrow> int \<times> int" where
  \<comment> \<open>\<open>(col * 8, row * 8)\<close> of \<open>getTilePosition\<close>\<close>
  "getTileOffset index =
     (let col = js_and index 15; row = js_and (js_shr index 4) 15 in (col * 8, row * 8))"

definition getTilePosition :: "int \<Rightarrow> string" where
  "getTilePosition index =
     (case getTileOffset index of (x, y) \<Rightarrow>
        ''-'' @ numToString 10 x @ ''px -'' @ numToString 10 y @ ''px'')"

definition checkBankDirty :: "tile_cache \<Rightarrow> tileref list \<Rightarrow> int \<Rightarrow> bool" where
  "checkBankDirty tc chrBankSignature ptBase =
     (let startRegion = (if 256 \<le> ptBase then 4 else 0)
      in list_ex (\<lambda>i. ref_at chrBankSignature (startRegion + i)
                        \<noteq> ref_at (prevBankRefs tc) (startRegion + i)) [0..<4])"

definition updateBankRefs :: "tileref list \<Rightarrow> tileref list \<Rightarrow> tileref list" where
  "updateBankRefs prev chrBankSignature =
     foldl (\<lambda>refs i. refs[i := ref_at chrBankSignature i]) prev [0..<8]"

definition chrStep :: "store \<Rightarrow> tileref list \<Rightarrow> 32 word list \<times> bool \<times> bool \<Rightarrow> nat
    \<Rightarrow> 32 word list \<times> bool \<times> bool" where
  \<comment> \<open>the body of the loop of \<open>_checkCHRDirty\<close>, at tile \<open>i\<close>\<close>
  "chrStep st ptTile acc i =
     (case acc of (cs, pt0Dirty, pt1Dirty) \<Rightarrow>
        (case ref_at ptTile i of
           Ref r \<Rightarrow>
             (let checksum = hashPix (st r)
              in if checksum \<noteq> uint (cs ! i)
                 then (cs[i := word_of_int checksum],
                       (if i < 256 then True else pt0Dirty),
                       (if i < 256 then pt1Dirty else True))
                 else acc)
         | _ \<Rightarrow> acc))"

definition checkCHRDirty :: "32 word list \<Rightarrow> store \<Rightarrow> tileref list \<Rightarrow> 32 word list \<times> bool \<times> bool" where
  "checkCHRDirty cs st ptTile = foldl (chrStep st ptTile) (cs, False, False) [0..<512]"

definition regenStep :: "(nat \<Rightarrow> bool) \<Rightarrow> (nat \<Rightarrow> string option list) \<Rightarrow> nat \<Rightarrow> int
    \<Rightarrow> nat list \<times> effect list \<Rightarrow> nat \<Rightarrow> nat list \<times> effect list" where
  \<comment> \<open>the body shared by the three sheet iterations: render the sheet and add it to \<open>updatedSheets\<close>\<close>
  "regenStep dirty colorsOf firstSheet base acc palGroup =
     (if dirty palGroup
      then (setAdd (fst acc) (firstSheet + palGroup),
            snd acc @ [RenderSheet (firstSheet + palGroup) base (colorsOf palGroup)])
      else acc)"

definition TileCache_update :: "tile_cache \<Rightarrow> store \<Rightarrow> tileref list \<Rightarrow> palette_manager \<Rightarrow> int \<Rightarrow> int
    \<Rightarrow> tileref list option \<Rightarrow> tile_cache \<times> effect list" where
  "TileCache_update tc st ptTile paletteManager bgBase sprBase chrBankSignature =
     (let bgBaseChanged = (bgBase \<noteq> prevBgBase tc);
          bgBankDirty = (case chrBankSignature of None \<Rightarrow> False
                         | Some s \<Rightarrow> checkBankDirty tc s bgBase);
          sprBank0Dirty = (case chrBankSignature of None \<Rightarrow> False
                           | Some s \<Rightarrow> checkBankDirty tc s 0);
          sprBank1Dirty = (case chrBankSignature of None \<Rightarrow> False
                           | Some s \<Rightarrow> checkBankDirty tc s 256);
          refs = (case chrBankSignature of None \<Rightarrow> prevBankRefs tc
                  | Some s \<Rightarrow> updateBankRefs (prevBankRefs tc) s);
          chr = checkCHRDirty (tileChecksums tc) st ptTile;
          chrDirtyPT0 = fst (snd chr);
          chrDirtyPT1 = snd (snd chr);
          bgPTIndex = (if 256 \<le> bgBase then 1 else 0 :: nat);
          bgDirty = (bgBankDirty \<or> (if bgPTIndex = 0 then chrDirtyPT0 else chrDirtyPT1));
          spr0Dirty = (sprBank0Dirty \<or> chrDirtyPT0);
          spr1Dirty = (sprBank1Dirty \<or> chrDirtyPT1);
          a1 = foldl (regenStep (\<lambda>g. g \<in> set (dirtyBgGroups paletteManager) \<or> bgDirty \<or> bgBaseChanged)
                        (getBgPaletteGroup paletteManager) 0 bgBase) ([], []) [0..<4];
          a2 = foldl (regenStep (\<lambda>g. g \<in> set (dirtySprGroups paletteManager) \<or> spr0Dirty)
                        (getSprPaletteGroup paletteManager) 4 0) a1 [0..<4];
          a3 = foldl (regenStep (\<lambda>g. g \<in> set (dirtySprGroups paletteManager) \<or> spr1Dirty)
                        (getSprPaletteGroup paletteManager) 8 256) a2 [0..<4];
          sheets = fst a3;
          e1 = (if 0 < length sheets then snd a3 @ [UpdateStylesheet] else snd a3);
          n = (if length sheets = 12 then consecRegenFrames tc + 1 else 0);
          e2 = (if length sheets = 12 \<and> n = 60 then e1 @ [ConsoleWarn] else e1)
      in (\<lparr>tileChecksums = fst chr, prevBankRefs = refs, updatedSheets = sheets,
           prevBgBase = bgBase, consecRegenFrames = n\<rparr>, e2))"

definition hasSheet :: "tile_cache \<Rightarrow> int \<Rightarrow> bool" where
  \<comment> \<open>\<open>this.updatedSheets.has(n)\<close> for a number \<open>n\<close>\<close>
  "hasSheet tc n \<longleftrightarrow> 0 \<le> n \<and> nat n \<in> set (updatedSheets tc)"

definition bgSheetUpdated :: "tile_cache \<Rightarrow> int \<Rightarrow> bool" where
  "bgSheetUpdated tc palGroup = hasSheet tc palGroup"

definition sprSheetUpdated :: "tile_cache \<Rightarrow> int \<Rightarrow> bool" where
  "sprSheetUpdated tc palGroup \<longleftrightarrow> hasSheet tc (4 + palGroup) \<or> hasSheet tc (8 + palGroup)"

definition renderedSheets :: "effect list \<Rightarrow> nat list" where
  \<comment> \<open>the sheet indices of the \<open>_renderSheet\<close> calls in a trace\<close>
  "renderedSheets es = concat (map (\<lambda>e. case e of RenderSheet s b c \<Rightarrow> [s] | _ \<Rightarrow> []) es)"

definition bankSig :: "tileref list \<Rightarrow> tileref list" where
  \<comment> \<open>\<open>PPUStateExtractor._extractCHRBankSignature\<close>: the first tile of each 1KB region\<close>
  "bankSig ptTile = map (\<lambda>i. ref_at ptTile (i * 64)) [0..<8]"


section \<open>The snapshot\<close>

text \<open>
  The object that \<open>PPUStateExtractor.extract\<close> returns. A nametable slot is
  \<open>None\<close> where the emulator has no nametable (\<open>null\<close>). The tile objects that
  \<open>ptTile\<close> refers to are read through \<open>tileStore\<close>.
\<close>

record scroll_state =
  coarseX :: int
  coarseY :: int
  fineX :: int
  fineY :: int
  nameTableH :: int
  nameTableV :: int

record name_table =
  ntTile :: "int list"
  ntAttrib :: "int list"

record sprite =
  sprX :: int
  sprY :: int
  tileIndex :: int
  sprPaletteOffset :: int
  flipH :: bool
  flipV :: bool
  behindBg :: bool

record ppu_state =
  bgPalette :: "int list"
  sprPalette :: "int list"
  nameTables :: "name_table option list"
  mirrorMap :: "nat list"
  ptTile :: "tileref list"
  tileStore :: store
  sprites :: "sprite list"
  scroll :: scroll_state
  bgPatternBase :: int
  sprPatternBase :: int
  spriteSize :: int
  bgVisible :: bool
  spritesVisible :: bool
  chrBankSignature :: "tileref list option"

section \<open>BGLayer\<close>

text \<open>
  Each of the 4 quadrants has 960 tile elements. Of an element the model keeps the style
  and data attributes that \<open>_updateQuadrant\<close> writes; of a quadrant, its position in
  pixels and its \<open>physNt\<close> attribute. \<open>prevTile\<close> is an \<open>Int16Array\<close> and
  \<open>prevAttrib\<close> an \<open>Int8Array\<close> per quadrant.
\<close>

record bg_cell =
  cellBackgroundPosition :: string
  cellClassName :: string
  cellTileIdx :: "int option"
  cellTileHex :: "string option"
  cellPalette :: "int option"

record bg_layer =
  bgDisplay :: string
  quadPhysNt :: "nat option list"
  quadLeft :: "int option list"
  quadTop :: "int option list"
  quadTileDivs :: "bg_cell list list"
  prevTile :: "16 word list list"
  prevAttrib :: "8 word list list"
  bgTransform :: "(int \<times> int) option"

definition BGLayer_new :: bg_layer where
  "BGLayer_new =
     \<lparr>bgDisplay = [], quadPhysNt = replicate 4 None,
      quadLeft = replicate 4 None, quadTop = replicate 4 None,
      quadTileDivs = replicate 4 (replicate 960
        \<lparr>cellBackgroundPosition = [], cellClassName = ''bg-tile'',
         cellTileIdx = None, cellTileHex = None, cellPalette = None\<rparr>),
      prevTile = replicate 4 (replicate 960 (- 1)),
      prevAttrib = replicate 4 (replicate 960 (- 1)),
      bgTransform = None\<rparr>"

definition bg_wf :: "bg_layer \<Rightarrow> bool" where
  "bg_wf bg \<longleftrightarrow> length (quadPhysNt bg) = 4 \<and> length (quadLeft bg) = 4 \<and> length (quadTop bg) = 4
     \<and> length (quadTileDivs bg) = 4 \<and> length (prevTile bg) = 4 \<and> length (prevAttrib bg) = 4
     \<and> (\<forall>q<4. length (quadTileDivs bg ! q) = 960 \<and> length (prevTile bg ! q) = 960
               \<and> length (prevAttrib bg ! q) = 960)"

fun foldE :: "('s \<Rightarrow> 'a \<Rightarrow> js_error + 's) \<Rightarrow> 's \<Rightarrow> 'a list \<Rightarrow> js_error + 's" where
  "foldE f s [] = Inr s"
| "foldE f s (x # xs) = (case f s x of Inl e \<Rightarrow> Inl e | Inr s' \<Rightarrow> foldE f s' xs)"

definition updateCell :: "tile_cache \<Rightarrow> int option \<Rightarrow> int option \<Rightarrow> 16 word \<times> 8 word \<times> bg_cell
    \<Rightarrow> js_error + 16 word \<times> 8 word \<times> bg_cell" where
  \<comment> \<open>the body of the loop of \<open>_updateQuadrant\<close>; \<open>tileIdx.toString\<close> throws on \<open>undefined\<close>\<close>
  "updateCell tc tileIdx rawAttrib st =
     (case st of (prevT, prevA, el) \<Rightarrow>
        let palGroup = js_shr (toNumber0 rawAttrib) 2;
            tileChanged = (tileIdx \<noteq> Some (sint prevT));
            attribChanged = (rawAttrib \<noteq> Some (sint prevA));
            sheetChanged = bgSheetUpdated tc palGroup
        in if \<not> tileChanged \<and> \<not> attribChanged \<and> \<not> sheetChanged then Inr st
           else (case tileIdx of
                   None \<Rightarrow> Inl TypeError
                 | Some t \<Rightarrow>
                     let el1 = (if tileChanged \<or> sheetChanged
                                then el\<lparr>cellBackgroundPosition := getTilePosition t\<rparr> else el);
                         prevT1 = (if tileChanged \<or> sheetChanged then word_of_int t else prevT);
                         hex = ''$'' @ padStart 2 CHR ''0'' (numToString 16 t)
                     in if attribChanged
                        then Inr (prevT1, word_of_int (toNumber0 rawAttrib),
                                  el1\<lparr>cellClassName := ''bg-tile bg-pal-'' @ numToString 10 palGroup,
                                      cellTileIdx := Some t, cellTileHex := Some hex,
                                      cellPalette := Some palGroup\<rparr>)
                        else if tileChanged
                        then Inr (prevT1, prevA, el1\<lparr>cellTileIdx := Some t, cellTileHex := Some hex\<rparr>)
                        else Inr (prevT1, prevA, el1)))"

definition cellStep :: "tile_cache \<Rightarrow> name_table \<Rightarrow> 16 word list \<times> 8 word list \<times> bg_cell list \<Rightarrow> nat
    \<Rightarrow> js_error + 16 word list \<times> 8 word list \<times> bg_cell list" where
  "cellStep tc ntData st i =
     (case st of (prevT, prevA, els) \<Rightarrow>
        (case updateCell tc (js_nth (ntTile ntData) i) (js_nth (ntAttrib ntData) i)
                (prevT ! i, prevA ! i, els ! i) of
           Inl e \<Rightarrow> Inl e
         | Inr (t, a, el) \<Rightarrow> Inr (prevT[i := t], prevA[i := a], els[i := el])))"

definition updateQuadrant :: "bg_layer \<Rightarrow> nat \<Rightarrow> name_table \<Rightarrow> tile_cache \<Rightarrow> js_error + bg_layer" where
  "updateQuadrant bg q ntData tc =
     (case foldE (cellStep tc ntData) (prevTile bg ! q, prevAttrib bg ! q, quadTileDivs bg ! q) [0..<960] of
        Inl e \<Rightarrow> Inl e
      | Inr (prevT, prevA, els) \<Rightarrow>
          Inr (bg\<lparr>prevTile := (prevTile bg)[q := prevT], prevAttrib := (prevAttrib bg)[q := prevA],
                  quadTileDivs := (quadTileDivs bg)[q := els]\<rparr>))"

definition lookupNameTable :: "ppu_state \<Rightarrow> nat \<Rightarrow> (nat \<times> name_table) option" where
  \<comment> \<open>\<open>nameTables[mirrorMap[q]]\<close>; \<open>None\<close> where the result is \<open>null\<close> or \<open>undefined\<close>\<close>
  "lookupNameTable ppu q =
     (case js_nth (mirrorMap ppu) q of
        None \<Rightarrow> None
      | Some physNT \<Rightarrow>
          (case js_nth (nameTables ppu) physNT of
             None \<Rightarrow> None
           | Some None \<Rightarrow> None
           | Some (Some ntData) \<Rightarrow> Some (physNT, ntData)))"

definition quadrantStep :: "ppu_state \<Rightarrow> tile_cache \<Rightarrow> bg_layer \<Rightarrow> nat \<Rightarrow> js_error + bg_layer" where
  \<comment> \<open>the body of the first loop of \<open>update\<close>\<close>
  "quadrantStep ppu tc bg q =
     (case lookupNameTable ppu q of
        None \<Rightarrow> Inr bg
      | Some (physNT, ntData) \<Rightarrow>
          updateQuadrant (bg\<lparr>quadPhysNt := (quadPhysNt bg)[q := Some physNT]\<rparr>) q ntData tc)"

definition placeQuadrant :: "int \<Rightarrow> int \<Rightarrow> bg_layer \<Rightarrow> nat \<Rightarrow> bg_layer" where
  \<comment> \<open>the body of the second loop of \<open>update\<close>\<close>
  "placeQuadrant scrollX scrollY bg q =
     (let col = js_and (int q) 1;
          row = js_shr (int q) 1;
          qx = col * 256;
          qy = row * 240;
          qx1 = (if qx + 256 \<le> scrollX then qx + 512 else qx);
          qy1 = (if qy + 240 \<le> scrollY then qy + 480 else qy)
      in bg\<lparr>quadLeft := (quadLeft bg)[q := Some qx1], quadTop := (quadTop bg)[q := Some qy1]\<rparr>)"

definition BGLayer_update :: "bg_layer \<Rightarrow> ppu_state \<Rightarrow> tile_cache \<Rightarrow> js_error + bg_layer" where
  "BGLayer_update bg ppu tc =
     (let bg0 = bg\<lparr>bgDisplay := (if bgVisible ppu then [] else ''none'')\<rparr>
      in if \<not> bgVisible ppu then Inr bg0
         else (case foldE (quadrantStep ppu tc) bg0 [0..<4] of
                 Inl e \<Rightarrow> Inl e
               | Inr bg1 \<Rightarrow>
                   let s = scroll ppu;
                       scrollX = coarseX s * 8 + fineX s + nameTableH s * 256;
                       scrollY = coarseY s * 8 + fineY s + nameTableV s * 240;
                       bg2 = foldl (placeQuadrant scrollX scrollY) bg1 [0..<4]
                   in Inr (bg2\<lparr>bgTransform := Some (- scrollX, - scrollY)\<rparr>)))"

section \<open>SpriteLayer\<close>

text \<open>
  64 sprite elements, each with a top and a bottom child element for the 8x16 mode; the
  three arrays \<open>spriteDivs\<close>, \<open>spriteTopDivs\<close> and \<open>spriteBotDivs\<close> are kept
  as the code has them.
\<close>

record sprite_data =
  dataX :: int
  dataY :: int
  dataTileIdx :: int
  dataTileHex :: string
  dataPalette :: int
  dataFlipH :: int
  dataFlipV :: int
  dataPriority :: string

record sprite_div =
  divDisplay :: string
  divLeft :: string
  divTop :: string
  divZIndex :: "int option"
  divClassName :: string
  divBackgroundPosition :: string
  divBackgroundImage :: string
  divTransform :: string
  divWidth :: string
  divHeight :: string
  divData :: "sprite_data option"

record half_div =
  halfDisplay :: string
  halfClassName :: string
  halfBackgroundPosition :: string

record sprite_layer =
  layerDisplay :: string
  spriteDivs :: "sprite_div list"
  spriteTopDivs :: "half_div list"
  spriteBotDivs :: "half_div list"
  prevSpriteSize :: int

definition SpriteLayer_new :: sprite_layer where
  "SpriteLayer_new =
     \<lparr>layerDisplay = [],
      spriteDivs = replicate 64
        \<lparr>divDisplay = ''none'', divLeft = [], divTop = [], divZIndex = None,
         divClassName = ''sprite'', divBackgroundPosition = [], divBackgroundImage = [],
         divTransform = [], divWidth = [], divHeight = [], divData = None\<rparr>,
      spriteTopDivs = replicate 64
        \<lparr>halfDisplay = [], halfClassName = ''sprite-half'', halfBackgroundPosition = []\<rparr>,
      spriteBotDivs = replicate 64
        \<lparr>halfDisplay = [], halfClassName = ''sprite-half'', halfBackgroundPosition = []\<rparr>,
      prevSpriteSize = - 1\<rparr>"

definition sl_wf :: "sprite_layer \<Rightarrow> bool" where
  "sl_wf sl \<longleftrightarrow> length (spriteDivs sl) = 64 \<and> length (spriteTopDivs sl) = 64
     \<and> length (spriteBotDivs sl) = 64"

definition scaleString :: "int \<Rightarrow> int \<Rightarrow> string" where
  "scaleString scaleX scaleY =
     ''scale('' @ numToString 10 scaleX @ '', '' @ numToString 10 scaleY @ '')''"

definition update8x8 :: "sprite_layer \<Rightarrow> nat \<Rightarrow> sprite \<Rightarrow> int \<Rightarrow> int \<Rightarrow> int \<Rightarrow> int \<Rightarrow> sprite_layer" where
  "update8x8 sl i spr palGroup scaleX scaleY sprBase =
     (let bankIdx = (if sprBase = 0 then 0 else 1 :: int);
          el = (spriteDivs sl ! i)
            \<lparr>divClassName := ''sprite spr-b'' @ numToString 10 bankIdx @ ''-pal-'' @ numToString 10 palGroup,
             divBackgroundPosition := getTilePosition (tileIndex spr),
             divTransform := scaleString scaleX scaleY\<rparr>
      in sl\<lparr>spriteDivs := (spriteDivs sl)[i := el],
             spriteTopDivs := (spriteTopDivs sl)[i := (spriteTopDivs sl ! i)\<lparr>halfDisplay := ''none''\<rparr>],
             spriteBotDivs := (spriteBotDivs sl)[i := (spriteBotDivs sl ! i)\<lparr>halfDisplay := ''none''\<rparr>]\<rparr>)"

definition update8x16 :: "sprite_layer \<Rightarrow> nat \<Rightarrow> sprite \<Rightarrow> int \<Rightarrow> int \<Rightarrow> int \<Rightarrow> int \<Rightarrow> sprite_layer" where
  "update8x16 sl i spr palGroup scaleX scaleY sprBase =
     (let el = (spriteDivs sl ! i)
            \<lparr>divClassName := ''sprite-8x16'',
             divBackgroundPosition := [],
             divBackgroundImage := ''none'',
             divTransform := scaleString scaleX scaleY\<rparr>;
          bank = (if js_and (tileIndex spr) 1 \<noteq> 0 then 256 else 0 :: int);
          bankIdx = (if bank = 0 then 0 else 1 :: int);
          topTileIdx = js_and (tileIndex spr) 254;
          botTileIdx = topTileIdx + 1;
          palClass = ''spr-b'' @ numToString 10 bankIdx @ ''-pal-'' @ numToString 10 palGroup;
          topEl = (spriteTopDivs sl ! i)
            \<lparr>halfDisplay := [], halfClassName := ''sprite-half '' @ palClass,
             halfBackgroundPosition :=
               (if flipV spr then getTilePosition botTileIdx else getTilePosition topTileIdx)\<rparr>;
          botEl = (spriteBotDivs sl ! i)
            \<lparr>halfDisplay := [], halfClassName := ''sprite-half '' @ palClass,
             halfBackgroundPosition :=
               (if flipV spr then getTilePosition topTileIdx else getTilePosition botTileIdx)\<rparr>
      in sl\<lparr>spriteDivs := (spriteDivs sl)[i := el],
             spriteTopDivs := (spriteTopDivs sl)[i := topEl],
             spriteBotDivs := (spriteBotDivs sl)[i := botEl]\<rparr>)"

definition updateSpriteMode :: "sprite_layer \<Rightarrow> bool \<Rightarrow> sprite_layer" where
  "updateSpriteMode sl is8x16 =
     sl\<lparr>spriteDivs := map (\<lambda>el. el\<lparr>divWidth := ''8px'',
                                      divHeight := (if is8x16 then ''16px'' else ''8px'')\<rparr>)
                           (spriteDivs sl)\<rparr>"

definition spriteStep :: "ppu_state \<Rightarrow> bool \<Rightarrow> sprite_layer \<Rightarrow> nat \<Rightarrow> js_error + sprite_layer" where
  \<comment> \<open>the body of the loop of \<open>update\<close>; reading a field of a missing sprite record throws\<close>
  "spriteStep ppu is8x16 sl i =
     (case js_nth (sprites ppu) i of
        None \<Rightarrow> Inl TypeError
      | Some spr \<Rightarrow>
          let y = sprY spr + 1;
              sprHeight = (if is8x16 then 16 else 8 :: int)
          in if 240 \<le> y \<or> y + sprHeight \<le> 0
             then Inr (sl\<lparr>spriteDivs := (spriteDivs sl)[i := (spriteDivs sl ! i)\<lparr>divDisplay := ''none''\<rparr>]\<rparr>)
             else
               let palGroup = js_shr (sprPaletteOffset spr) 2;
                   scaleX = (if flipH spr then - 1 else 1 :: int);
                   scaleY = (if flipV spr then - 1 else 1 :: int);
                   el = (spriteDivs sl ! i)
                     \<lparr>divDisplay := [],
                      divLeft := numToString 10 (sprX spr) @ ''px'',
                      divTop := numToString 10 y @ ''px'',
                      divZIndex := Some (if behindBg spr then - 1 else 1),
                      divData := Some
                        \<lparr>dataX = sprX spr, dataY = y, dataTileIdx = tileIndex spr,
                         dataTileHex = ''$'' @ padStart 2 CHR ''0'' (numToString 16 (tileIndex spr)),
                         dataPalette = palGroup,
                         dataFlipH = (if flipH spr then 1 else 0),
                         dataFlipV = (if flipV spr then 1 else 0),
                         dataPriority = (if behindBg spr then ''behind-bg'' else ''in-front'')\<rparr>\<rparr>;
                   sl1 = sl\<lparr>spriteDivs := (spriteDivs sl)[i := el]\<rparr>
               in if is8x16
                  then Inr (update8x16 sl1 i spr palGroup scaleX scaleY (sprPatternBase ppu))
                  else Inr (update8x8 sl1 i spr palGroup scaleX scaleY (sprPatternBase ppu)))"

definition SpriteLayer_update :: "sprite_layer \<Rightarrow> ppu_state \<Rightarrow> js_error + sprite_layer" where
  "SpriteLayer_update sl ppu =
     (let sl0 = sl\<lparr>layerDisplay := (if spritesVisible ppu then [] else ''none'')\<rparr>
      in if \<not> spritesVisible ppu then Inr sl0
         else
           let is8x16 = (spriteSize ppu = 1);
               sl1 = (if spriteSize ppu \<noteq> prevSpriteSize sl0
                      then (updateSpriteMode sl0 is8x16)\<lparr>prevSpriteSize := spriteSize ppu\<rparr>
                      else sl0)
           in foldE (spriteStep ppu is8x16) sl1 [0..<64])"

section \<open>CSSRenderer\<close>

text \<open>
  \<open>renderFrame\<close> runs the four components in order and labels the viewport. The debug
  overlays are off unless toggled, and their \<open>update\<close> then does nothing; they are not
  part of the model. The data attributes of the viewport hold the numbers and the mirror map
  themselves, not their strings. An exception ends the frame: the result is the error, and the
  state that the components had reached is not returned.
\<close>

record viewport =
  vpBackgroundColor :: "string option"
  vpFrame :: nat
  vpScrollX :: int
  vpScrollY :: int
  vpBgColor :: "string option"
  vpBgPatternTable :: string
  vpSprPatternTable :: string
  vpSpriteSize :: string
  vpMirroring :: "nat list"

record css_renderer =
  paletteManager :: palette_manager
  tileCache :: tile_cache
  bgLayer :: bg_layer
  spriteLayer :: sprite_layer
  viewportData :: "viewport option"
  frameCount :: nat

definition CSSRenderer_new :: css_renderer where
  "CSSRenderer_new =
     \<lparr>paletteManager = PaletteManager_new, tileCache = TileCache_new, bgLayer = BGLayer_new,
      spriteLayer = SpriteLayer_new, viewportData = None, frameCount = 0\<rparr>"

definition renderFrame :: "css_renderer \<Rightarrow> ppu_state \<Rightarrow> js_error + css_renderer \<times> effect list" where
  "renderFrame r ppu =
     (let pm = fst (PaletteManager_update (paletteManager r) (bgPalette ppu) (sprPalette ppu));
          tcu = TileCache_update (tileCache r) (tileStore ppu) (ptTile ppu) pm
                  (bgPatternBase ppu) (sprPatternBase ppu) (chrBankSignature ppu)
      in case BGLayer_update (bgLayer r) ppu (fst tcu) of
           Inl e \<Rightarrow> Inl e
         | Inr bg \<Rightarrow>
             (case SpriteLayer_update (spriteLayer r) ppu of
                Inl e \<Rightarrow> Inl e
              | Inr sl \<Rightarrow>
                  let s = scroll ppu;
                      vp = \<lparr>vpBackgroundColor = getBackgroundColor pm,
                            vpFrame = frameCount r,
                            vpScrollX = coarseX s * 8 + fineX s + nameTableH s * 256,
                            vpScrollY = coarseY s * 8 + fineY s + nameTableV s * 240,
                            vpBgColor = getBackgroundColor pm,
                            vpBgPatternTable = (if bgPatternBase ppu = 0 then ''$0000'' else ''$1000''),
                            vpSprPatternTable = (if sprPatternBase ppu = 0 then ''$0000'' else ''$1000''),
                            vpSpriteSize = (if spriteSize ppu = 0 then ''8x8'' else ''8x16''),
                            vpMirroring = mirrorMap ppu\<rparr>
                  in Inr (\<lparr>paletteManager = pm, tileCache = fst tcu, bgLayer = bg, spriteLayer = sl,
                           viewportData = Some vp, frameCount = frameCount r + 1\<rparr>, snd tcu)))"

definition snapshot_wf :: "ppu_state \<Rightarrow> bool" where
  \<comment> \<open>the shape the extractor produces: 64 sprite records, and every tile slot a renderer
      reads (0 to 959) populated in each nametable that is present\<close>
  "snapshot_wf ppu \<longleftrightarrow> 64 \<le> length (sprites ppu)
     \<and> (\<forall>nt. Some nt \<in> set (nameTables ppu) \<longrightarrow> 960 \<le> length (ntTile nt))"

section \<open>Auxiliary notions for the statements\<close>

definition current :: "store \<Rightarrow> tileref list \<Rightarrow> 32 word list \<Rightarrow> nat \<Rightarrow> bool" where
  \<comment> \<open>the stored checksum of tile \<open>i\<close> is the hash of its present pixels\<close>
  "current st tiles cs i \<longleftrightarrow> (\<forall>r. ref_at tiles i = Ref r \<longrightarrow> uint (cs ! i) = hashPix (st r))"

definition bankDirty :: "tile_cache \<Rightarrow> store \<Rightarrow> tileref list \<Rightarrow> tileref list option \<Rightarrow> int \<Rightarrow> bool" where
  \<comment> \<open>the dirty signal of \<open>update\<close> for the pattern table at \<open>base\<close>:
      switch-dirty or content-dirty\<close>
  "bankDirty tc st tiles sig base \<longleftrightarrow>
     (case sig of None \<Rightarrow> False | Some s \<Rightarrow> checkBankDirty tc s base)
     \<or> (if 256 \<le> base then snd (snd (checkCHRDirty (tileChecksums tc) st tiles))
         else fst (snd (checkCHRDirty (tileChecksums tc) st tiles)))"

definition sheetOffsets :: "(int \<times> int) set" where
  \<comment> \<open>the 8-pixel-aligned offsets of the 128x128 sheet\<close>
  "sheetOffsets = {(x, y). 0 \<le> x \<and> x < 128 \<and> 0 \<le> y \<and> y < 128 \<and> 8 dvd x \<and> 8 dvd y}"

definition fnv1a32 :: "32 word list \<Rightarrow> 32 word" where
  \<comment> \<open>the checksum as the specification words it: XOR each value into a 32-bit accumulator,
      then multiply by the prime modulo \<open>2^32\<close>\<close>
  "fnv1a32 pix = foldl (\<lambda>h p. (h XOR p) * 16777619) 2166136261 pix"

subsection \<open>Concrete inputs\<close>

definition collisionPix :: "int list" where
  "collisionPix =
     [0, 0, 2, 1, 3, 1, 1, 1, 0, 0, 1, 1, 0, 1, 0, 0,
      3, 1, 0, 2, 1, 3, 0, 1, 3, 2, 1, 2, 0, 3, 0, 2,
      2, 1, 3, 3, 1, 3, 0, 0, 1, 3, 3, 0, 2, 0, 1, 2,
      2, 1, 0, 2, 1, 2, 1, 3, 0, 1, 3, 2, 2, 1, 1, 2]"

definition fullTiles :: "tileref list" where
  \<comment> \<open>512 tile objects with identities 0 to 511\<close>
  "fullTiles = map Ref [0..<512]"

definition switchedTiles :: "nat \<Rightarrow> tileref list" where
  \<comment> \<open>\<open>fullTiles\<close> after a bank switch of one 1KB region: its 64 tiles are new objects\<close>
  "switchedTiles region = map (\<lambda>i. if i div 64 = region then Ref (512 + i) else Ref i) [0..<512]"

definition blankStore :: store where
  "blankStore = (\<lambda>r. replicate 64 0)"

definition emptyFrame :: ppu_state where
  \<comment> \<open>a snapshot with no nametable present, 64 sprites parked below the screen, scroll 0\<close>
  "emptyFrame =
     \<lparr>bgPalette = replicate 16 0, sprPalette = replicate 16 0,
      nameTables = replicate 4 None, mirrorMap = [0, 0, 1, 1],
      ptTile = fullTiles, tileStore = blankStore,
      sprites = replicate 64
        \<lparr>sprX = 0, sprY = 240, tileIndex = 0, sprPaletteOffset = 0,
         flipH = False, flipV = False, behindBg = False\<rparr>,
      scroll = \<lparr>coarseX = 0, coarseY = 0, fineX = 0, fineY = 0, nameTableH = 0, nameTableV = 0\<rparr>,
      bgPatternBase = 0, sprPatternBase = 0, spriteSize = 0,
      bgVisible = True, spritesVisible = True,
      chrBankSignature = Some (bankSig fullTiles)\<rparr>"

definition scrolledFrame :: ppu_state where
  \<comment> \<open>coarseX = 10, fineX = 3, nameTableH = 1\<close>
  "scrolledFrame = emptyFrame
     \<lparr>scroll := \<lparr>coarseX = 10, coarseY = 0, fineX = 3, fineY = 0, nameTableH = 1, nameTableV = 0\<rparr>\<rparr>"

definition hiddenFrame :: ppu_state where
  \<comment> \<open>\<open>scrolledFrame\<close> with the background switched off\<close>
  "hiddenFrame = scrolledFrame\<lparr>bgVisible := False\<rparr>"



definition settledPalettes :: palette_manager where
  \<comment> \<open>a tracker that has seen the all-zero palettes once\<close>
  "settledPalettes = fst (PaletteManager_update PaletteManager_new (replicate 16 0) (replicate 16 0))"

definition renderer_wf :: "css_renderer \<Rightarrow> bool" where
  "renderer_wf r \<longleftrightarrow> pm_wf (paletteManager r) \<and> tc_wf (tileCache r)
     \<and> bg_wf (bgLayer r) \<and> sl_wf (spriteLayer r)"

definition resettledPalettes :: palette_manager where
  \<comment> \<open>\<open>settledPalettes\<close> after a second update with the same palettes\<close>
  "resettledPalettes = fst (PaletteManager_update settledPalettes (replicate 16 0) (replicate 16 0))"

definition warmCache :: tile_cache where
  \<comment> \<open>a cache after one update over \<open>fullTiles\<close>\<close>
  "warmCache =
     fst (TileCache_update TileCache_new blankStore fullTiles settledPalettes 0 0 (Some (bankSig fullTiles)))"

section \<open>Facts about the number operations\<close>

lemma toInt32_id: "- (2 ^ 31) \<le> v \<Longrightarrow> v < 2 ^ 31 \<Longrightarrow> toInt32 v = v"
  unfolding toInt32_def
  by (simp add: sint_sbintrunc' signed_take_bit_int_eq_self)

lemma and_15_mod: "0 \<le> (i::int) \<Longrightarrow> i AND 15 = i mod 16"
  using take_bit_eq_mask[of 4 i] by (simp add: take_bit_eq_mod mask_eq_exp_minus_1)



lemma numToString_digit: "0 \<le> n \<Longrightarrow> n < 10 \<Longrightarrow> numToString 10 n = [digitChar (nat n)]"
  by (simp add: numToString_def digitsOf.simps)

text \<open>The colour conversion on the values of the repository's unit tests.\<close>

lemma toCSS_examples:
  "toCSS (Some 0) = ''#000000''" "toCSS (Some 255) = ''#ff0000''"
  "toCSS (Some 65280) = ''#00ff00''" "toCSS (Some 16711680) = ''#0000ff''"
  "toCSS (Some 1056816) = ''#302010''" "toCSS None = ''#000000''"
  by code_simp+

section \<open>The tile checksum\<close>

lemma hashPix_range: "0 \<le> hashPix p \<and> hashPix p < 2 ^ 32"
  unfolding hashPix_def toUint32_def
  using uint_lt2p[of "word_of_int (foldl (hashStep p) 2166136261 [0..<64]) :: 32 word"]
  by simp

text \<open>
  The checksum as the specification words it, with the multiplication modulo \<open>2^32\<close>,
  tells apart any two pixel arrays that differ at one position: the multiplier is odd, so each
  step is a bijection of the accumulator.
\<close>

lemma fnv_prime_inverse: "(16777619 :: 32 word) * 899433627 = 1"
  by simp

lemma fnv_mult_inj:
  assumes "(x :: 32 word) * 16777619 = y * 16777619"
  shows "x = y"
proof -
  have "x * (16777619 * 899433627) = y * (16777619 * 899433627)"
    using assms by (simp only: mult.assoc [symmetric])
  then show ?thesis by (simp only: fnv_prime_inverse mult_1_right)
qed

lemma word_xor_cancel_left: "(h :: 32 word) XOR a = h XOR b \<Longrightarrow> a = b"
  by (metis bit.xor_left_self)

lemma fnv_step_inj_acc:
  assumes "((h :: 32 word) XOR p) * 16777619 = (h' XOR p) * 16777619"
  shows "h = h'"
proof -
  have "h XOR p = h' XOR p" using assms by (rule fnv_mult_inj)
  then have "(h XOR p) XOR p = (h' XOR p) XOR p" by simp
  then show ?thesis by (simp add: xor.assoc)
qed

lemma fnv_fold_inj:
  "foldl (\<lambda>h p. (h XOR p) * 16777619) h ys = foldl (\<lambda>h p. (h XOR p) * 16777619) h' ys
   \<Longrightarrow> h = (h' :: 32 word)"
proof (induction ys arbitrary: h h')
  case Nil
  then show ?case by simp
next
  case (Cons y ys)
  then have "(h XOR y) * 16777619 = (h' XOR y) * 16777619" by simp
  then show ?case by (rule fnv_step_inj_acc)
qed

lemma fnv1a32_single_pixel:
  assumes "a \<noteq> b"
  shows "fnv1a32 (xs @ a # ys) \<noteq> fnv1a32 (xs @ b # ys)"
proof
  let ?h = "foldl (\<lambda>h p. (h XOR p) * 16777619) 2166136261 xs"
  assume "fnv1a32 (xs @ a # ys) = fnv1a32 (xs @ b # ys)"
  then have "(?h XOR a) * 16777619 = (?h XOR b) * 16777619"
    unfolding fnv1a32_def by (simp only: foldl_append foldl_Cons) (rule fnv_fold_inj)
  then have "?h XOR a = ?h XOR b" by (rule fnv_mult_inj)
  then have "a = b" by (rule word_xor_cancel_left)
  then show False using assms by simp
qed

text \<open>
  C3. The claim: \<open>_hashPix\<close> is deterministic and gives different hashes to any two
  64-element pixel arrays that differ at exactly one position. The code multiplies in double
  precision, \<open>(h * 0x01000193) | 0\<close>, where the product passes \<open>2^53\<close> and loses
  its low bits before the truncation to 32 bits. The theorem evaluates \<open>_hashPix\<close> on a
  tile whose pixels are all in 0..3 and on the same tile with pixel 1 changed from 0 to 3: the
  two hashes are equal, so the change of that pixel goes unseen.
\<close>

theorem hashPix_single_pixel_collision:
  "length collisionPix = 64
   \<and> list_all (\<lambda>p. 0 \<le> p \<and> p \<le> 3) collisionPix
   \<and> collisionPix ! 1 = 0
   \<and> hashPix collisionPix = 505471360
   \<and> hashPix (collisionPix[1 := 3]) = 505471360"
  by code_simp

section \<open>The tile position\<close>

lemma getTileOffset_byte:
  assumes "0 \<le> i" "i \<le> 255"
  shows "getTileOffset i = ((i mod 16) * 8, (i div 16) * 8)"
proof -
  have a: "toInt32 i = i" using assms by (simp add: toInt32_id)
  have b: "0 \<le> i div 16" "i div 16 < 16" using assms by auto
  have c: "toInt32 (i div 16) = i div 16" using b by (simp add: toInt32_id)
  have d: "toInt32 15 = 15" by (simp add: toInt32_id)
  have e: "(i div 16) AND 15 = i div 16" using b by (simp add: and_15_mod)
  show ?thesis
    using assms
    by (simp add: getTileOffset_def js_and_def js_shr_def a c d e and_15_mod drop_bit_eq_div)
qed

lemma getTileOffset_bij: "bij_betw getTileOffset {0..255} sheetOffsets"
proof (rule bij_betw_byWitness[where f' = "\<lambda>(x, y). (y div 8) * 16 + x div 8"])
  show "\<forall>a\<in>{0..255}. (case getTileOffset a of (x, y) \<Rightarrow> y div 8 * 16 + x div 8) = a"
    by (auto simp: getTileOffset_byte)
  show "\<forall>a'\<in>sheetOffsets. getTileOffset (case a' of (x, y) \<Rightarrow> y div 8 * 16 + x div 8) = a'"
  proof
    fix a' assume h: "a' \<in> sheetOffsets"
    obtain x y where xy: "a' = (x, y)" by (cases a')
    from h xy have r: "0 \<le> x" "x < 128" "0 \<le> y" "y < 128" "8 dvd x" "8 dvd y"
      by (auto simp: sheetOffsets_def)
    let ?i = "y div 8 * 16 + x div 8"
    have i: "0 \<le> ?i" "?i \<le> 255" using r by auto
    have m: "?i mod 16 = x div 8" using r by auto
    have dv: "?i div 16 = y div 8" using r by auto
    have "getTileOffset ?i = (x div 8 * 8, y div 8 * 8)"
      using getTileOffset_byte[OF i] m dv by simp
    also have "\<dots> = (x, y)" using r by auto
    finally show "getTileOffset (case a' of (x, y) \<Rightarrow> y div 8 * 16 + x div 8) = a'"
      using xy by simp
  qed
  show "getTileOffset ` {0..255} \<subseteq> sheetOffsets"
    by (auto simp: getTileOffset_byte sheetOffsets_def)
  show "(\<lambda>(x, y). y div 8 * 16 + x div 8) ` sheetOffsets \<subseteq> {0..255}"
    by (auto simp: sheetOffsets_def)
qed

lemma getTileOffset_examples:
  "getTileOffset 0 = (0, 0)" "getTileOffset 15 = (120, 0)"
  "getTileOffset 16 = (0, 8)" "getTileOffset 255 = (120, 120)"
  by (simp_all add: getTileOffset_byte)

lemma getTilePosition_examples:
  "getTilePosition 0 = ''-0px -0px''" "getTilePosition 15 = ''-120px -0px''"
  "getTilePosition 16 = ''-0px -8px''" "getTilePosition 255 = ''-120px -120px''"
  by code_simp+

text \<open>
  C5. \<open>getTilePosition\<close> sends a tile index in 0..255 to column \<open>index mod 16\<close> and
  row \<open>index div 16\<close>, and returns the pixel offset \<open>(col * 8, row * 8)\<close> (as the
  string \<open>-{col*8}px -{row*8}px\<close>). The offsets are a bijection from the indices 0..255 onto
  the 256 offsets of the 128x128 sheet that are multiples of 8, and the indices 0, 15, 16 and 255 go to (0,0), (120,0), (0,8) and (120,120).
\<close>

theorem getTilePosition_bijection:
  "(\<forall>index\<in>{0..255}.
       getTileOffset index = ((index mod 16) * 8, (index div 16) * 8)
     \<and> getTilePosition index =
         ''-'' @ numToString 10 ((index mod 16) * 8) @ ''px -'' @ numToString 10 ((index div 16) * 8) @ ''px'')
   \<and> bij_betw getTileOffset {0..255} sheetOffsets
   \<and> card sheetOffsets = 256
   \<and> getTileOffset 0 = (0, 0) \<and> getTileOffset 15 = (120, 0)
   \<and> getTileOffset 16 = (0, 8) \<and> getTileOffset 255 = (120, 120)
   \<and> getTilePosition 0 = ''-0px -0px'' \<and> getTilePosition 15 = ''-120px -0px''
   \<and> getTilePosition 16 = ''-0px -8px'' \<and> getTilePosition 255 = ''-120px -120px''"
proof -
  have a: "\<forall>index\<in>{0..255}.
       getTileOffset index = ((index mod 16) * 8, (index div 16) * 8)
     \<and> getTilePosition index =
         ''-'' @ numToString 10 ((index mod 16) * 8) @ ''px -'' @ numToString 10 ((index div 16) * 8) @ ''px''"
    by (simp add: getTilePosition_def getTileOffset_byte)
  have c: "card sheetOffsets = 256"
    using bij_betw_same_card[OF getTileOffset_bij] by simp
  show ?thesis
    by (intro conjI a c getTileOffset_bij getTileOffset_examples getTilePosition_examples)
qed

theorem getTilePosition_bijection_witness:
  "(17 :: int) \<in> {0..255} \<and> getTileOffset 17 = (8, 8) \<and> getTilePosition 17 = ''-8px -8px''"
proof -
  have m: "(17 :: int) \<in> {0..255}" by simp
  have "getTileOffset 17 = ((17 mod 16) * 8, (17 div 16) * 8)
     \<and> getTilePosition 17 =
         ''-'' @ numToString 10 ((17 mod 16) * 8) @ ''px -'' @ numToString 10 ((17 div 16) * 8) @ ''px''"
    using getTilePosition_bijection m by blast
  then show ?thesis using m by (simp add: numToString_digit digitChar_def)
qed

section \<open>The palette tracker\<close>

lemma setAdd_set: "set (setAdd s x) = insert x (set s)"
  by (auto simp: setAdd_def)

lemma paletteStep_prevBg:
  "i < length (prevBg pm) \<Longrightarrow> prevBg (paletteStep bg spr pm i) = (prevBg pm)[i := js_nth bg i]"
  by (simp add: paletteStep_def Let_def)

lemma paletteStep_prevSpr:
  "i < length (prevSpr pm) \<Longrightarrow> prevSpr (paletteStep bg spr pm i) = (prevSpr pm)[i := js_nth spr i]"
  by (simp add: paletteStep_def Let_def)

lemma paletteStep_dirtyBg:
  "dirtyBgGroups (paletteStep bg spr pm i) =
     (if js_nth bg i \<noteq> prevBg pm ! i then setAdd (dirtyBgGroups pm) (i div 4) else dirtyBgGroups pm)"
  by (simp add: paletteStep_def Let_def drop_bit_eq_div)

lemma paletteStep_dirtySpr:
  "dirtySprGroups (paletteStep bg spr pm i) =
     (if js_nth spr i \<noteq> prevSpr pm ! i then setAdd (dirtySprGroups pm) (i div 4) else dirtySprGroups pm)"
  by (simp add: paletteStep_def Let_def drop_bit_eq_div)

lemma paletteStep_lengths:
  "length (prevBg (paletteStep bg spr pm i)) = length (prevBg pm)"
  "length (prevSpr (paletteStep bg spr pm i)) = length (prevSpr pm)"
  "length (bgColors (paletteStep bg spr pm i)) = length (bgColors pm)"
  "length (sprColors (paletteStep bg spr pm i)) = length (sprColors pm)"
  by (simp_all add: paletteStep_def Let_def)

lemma paletteFold_lengths:
  "length (prevBg (foldl (paletteStep bg spr) pm ks)) = length (prevBg pm)
   \<and> length (prevSpr (foldl (paletteStep bg spr) pm ks)) = length (prevSpr pm)
   \<and> length (bgColors (foldl (paletteStep bg spr) pm ks)) = length (bgColors pm)
   \<and> length (sprColors (foldl (paletteStep bg spr) pm ks)) = length (sprColors pm)"
  by (induction ks arbitrary: pm) (simp_all add: paletteStep_lengths)

lemma paletteFold_dirtyBg:
  "distinct ks \<Longrightarrow> \<forall>i\<in>set ks. i < length (prevBg pm) \<Longrightarrow>
   set (dirtyBgGroups (foldl (paletteStep bg spr) pm ks)) =
     set (dirtyBgGroups pm) \<union> (\<lambda>i. i div 4) ` {i \<in> set ks. js_nth bg i \<noteq> prevBg pm ! i}"
proof (induction ks arbitrary: pm)
  case Nil
  then show ?case by simp
next
  case (Cons i ks)
  have len: "i < length (prevBg pm)" using Cons.prems by simp
  have same: "\<forall>j\<in>set ks. prevBg (paletteStep bg spr pm i) ! j = prevBg pm ! j"
  proof
    fix j assume "j \<in> set ks"
    then have "i \<noteq> j" using Cons.prems by auto
    then show "prevBg (paletteStep bg spr pm i) ! j = prevBg pm ! j"
      using len by (simp add: paletteStep_prevBg)
  qed
  have "set (dirtyBgGroups (foldl (paletteStep bg spr) (paletteStep bg spr pm i) ks)) =
        set (dirtyBgGroups (paletteStep bg spr pm i))
          \<union> (\<lambda>i. i div 4) ` {j \<in> set ks. js_nth bg j \<noteq> prevBg (paletteStep bg spr pm i) ! j}"
    using Cons.prems by (intro Cons.IH) (auto simp: paletteStep_lengths)
  also have "{j \<in> set ks. js_nth bg j \<noteq> prevBg (paletteStep bg spr pm i) ! j}
             = {j \<in> set ks. js_nth bg j \<noteq> prevBg pm ! j}"
    using same by auto
  finally show ?case
    by (auto simp: paletteStep_dirtyBg setAdd_set)
qed

lemma paletteFold_dirtySpr:
  "distinct ks \<Longrightarrow> \<forall>i\<in>set ks. i < length (prevSpr pm) \<Longrightarrow>
   set (dirtySprGroups (foldl (paletteStep bg spr) pm ks)) =
     set (dirtySprGroups pm) \<union> (\<lambda>i. i div 4) ` {i \<in> set ks. js_nth spr i \<noteq> prevSpr pm ! i}"
proof (induction ks arbitrary: pm)
  case Nil
  then show ?case by simp
next
  case (Cons i ks)
  have len: "i < length (prevSpr pm)" using Cons.prems by simp
  have same: "\<forall>j\<in>set ks. prevSpr (paletteStep bg spr pm i) ! j = prevSpr pm ! j"
  proof
    fix j assume "j \<in> set ks"
    then have "i \<noteq> j" using Cons.prems by auto
    then show "prevSpr (paletteStep bg spr pm i) ! j = prevSpr pm ! j"
      using len by (simp add: paletteStep_prevSpr)
  qed
  have "set (dirtySprGroups (foldl (paletteStep bg spr) (paletteStep bg spr pm i) ks)) =
        set (dirtySprGroups (paletteStep bg spr pm i))
          \<union> (\<lambda>i. i div 4) ` {j \<in> set ks. js_nth spr j \<noteq> prevSpr (paletteStep bg spr pm i) ! j}"
    using Cons.prems by (intro Cons.IH) (auto simp: paletteStep_lengths)
  also have "{j \<in> set ks. js_nth spr j \<noteq> prevSpr (paletteStep bg spr pm i) ! j}
             = {j \<in> set ks. js_nth spr j \<noteq> prevSpr pm ! j}"
    using same by auto
  finally show ?case
    by (auto simp: paletteStep_dirtySpr setAdd_set)
qed

lemma paletteFold_prevBg:
  "distinct ks \<Longrightarrow> \<forall>i\<in>set ks. i < length (prevBg pm) \<Longrightarrow>
   prevBg (foldl (paletteStep bg spr) pm ks) ! j =
     (if j \<in> set ks then js_nth bg j else prevBg pm ! j)"
proof (induction ks arbitrary: pm)
  case Nil
  then show ?case by simp
next
  case (Cons i ks)
  then show ?case
    by (auto simp: paletteStep_prevBg paletteStep_lengths)
qed

lemma paletteFold_prevSpr:
  "distinct ks \<Longrightarrow> \<forall>i\<in>set ks. i < length (prevSpr pm) \<Longrightarrow>
   prevSpr (foldl (paletteStep bg spr) pm ks) ! j =
     (if j \<in> set ks then js_nth spr j else prevSpr pm ! j)"
proof (induction ks arbitrary: pm)
  case Nil
  then show ?case by simp
next
  case (Cons i ks)
  then show ?case
    by (auto simp: paletteStep_prevSpr paletteStep_lengths)
qed

lemma update_dirtyBg:
  assumes "pm_wf pm"
  shows "set (dirtyBgGroups (fst (PaletteManager_update pm bg spr))) =
           (\<lambda>i. i div 4) ` {i. i < 16 \<and> js_nth bg i \<noteq> prevBg pm ! i}"
  using assms paletteFold_dirtyBg[of "[0..<16]" "pm\<lparr>dirtyBgGroups := [], dirtySprGroups := []\<rparr>" bg spr]
  by (simp add: PaletteManager_update_def Let_def pm_wf_def)

lemma update_dirtySpr:
  assumes "pm_wf pm"
  shows "set (dirtySprGroups (fst (PaletteManager_update pm bg spr))) =
           (\<lambda>i. i div 4) ` {i. i < 16 \<and> js_nth spr i \<noteq> prevSpr pm ! i}"
  using assms paletteFold_dirtySpr[of "[0..<16]" "pm\<lparr>dirtyBgGroups := [], dirtySprGroups := []\<rparr>" bg spr]
  by (simp add: PaletteManager_update_def Let_def pm_wf_def)

lemma update_pm_wf:
  "pm_wf pm \<Longrightarrow> pm_wf (fst (PaletteManager_update pm bg spr))"
  by (simp add: PaletteManager_update_def Let_def pm_wf_def paletteFold_lengths)

lemma update_prev:
  assumes "pm_wf pm" "j < 16"
  shows "prevBg (fst (PaletteManager_update pm bg spr)) ! j = js_nth bg j"
    and "prevSpr (fst (PaletteManager_update pm bg spr)) ! j = js_nth spr j"
  using assms
    paletteFold_prevBg[of "[0..<16]" "pm\<lparr>dirtyBgGroups := [], dirtySprGroups := []\<rparr>" bg spr j]
    paletteFold_prevSpr[of "[0..<16]" "pm\<lparr>dirtyBgGroups := [], dirtySprGroups := []\<rparr>" bg spr j]
  by (simp_all add: PaletteManager_update_def Let_def pm_wf_def)

lemma update_changed:
  "snd (PaletteManager_update pm bg spr) \<longleftrightarrow>
     set (dirtyBgGroups (fst (PaletteManager_update pm bg spr))) \<noteq> {}
     \<or> set (dirtySprGroups (fst (PaletteManager_update pm bg spr))) \<noteq> {}"
  by (simp add: PaletteManager_update_def Let_def)

lemma update_twice_clean:
  assumes "pm_wf pm"
  shows "dirtyBgGroups (fst (PaletteManager_update (fst (PaletteManager_update pm bg spr)) bg spr)) = []"
    and "dirtySprGroups (fst (PaletteManager_update (fst (PaletteManager_update pm bg spr)) bg spr)) = []"
proof -
  let ?pm1 = "fst (PaletteManager_update pm bg spr)"
  have wf: "pm_wf ?pm1" using assms by (rule update_pm_wf)
  have "set (dirtyBgGroups (fst (PaletteManager_update ?pm1 bg spr))) = {}"
    using update_dirtyBg[OF wf, of bg spr] update_prev(1)[OF assms] by auto
  then show "dirtyBgGroups (fst (PaletteManager_update ?pm1 bg spr)) = []" by simp
  have "set (dirtySprGroups (fst (PaletteManager_update ?pm1 bg spr))) = {}"
    using update_dirtySpr[OF wf, of bg spr] update_prev(2)[OF assms] by auto
  then show "dirtySprGroups (fst (PaletteManager_update ?pm1 bg spr)) = []" by simp
qed

lemma PaletteManager_new_wf: "pm_wf PaletteManager_new"
  by (simp add: pm_wf_def PaletteManager_new_def)

lemma settledPalettes_wf: "pm_wf settledPalettes"
  unfolding settledPalettes_def by (rule update_pm_wf[OF PaletteManager_new_wf])

lemma settledPalettes_prev:
  "j < 16 \<Longrightarrow> prevBg settledPalettes ! j = Some 0"
  "j < 16 \<Longrightarrow> prevSpr settledPalettes ! j = Some 0"
  unfolding settledPalettes_def
  by (simp_all add: update_prev[OF PaletteManager_new_wf] js_nth_def)

text \<open>
  C4. For every stored previous palette state and every index \<open>i\<close> in 0..15: when the
  palettes passed to \<open>PaletteManager.update\<close> differ from the stored previous values at
  exactly index \<open>i\<close> of exactly one role, the call marks exactly group \<open>i div 4\<close>
  dirty in that role's set, leaves the other role's set empty, and returns true. The dirty sets
  are cleared at the start of the call: whatever they held before, the result is the same.
\<close>

theorem PaletteManager_update_single_entry:
  assumes "pm_wf pm" and "i < 16"
  shows "((\<forall>j<16. (js_nth bg j \<noteq> prevBg pm ! j) = (j = i)) \<and> (\<forall>j<16. js_nth spr j = prevSpr pm ! j) \<longrightarrow>
            set (dirtyBgGroups (fst (PaletteManager_update pm bg spr))) = {i div 4}
          \<and> dirtySprGroups (fst (PaletteManager_update pm bg spr)) = []
          \<and> snd (PaletteManager_update pm bg spr))
       \<and> ((\<forall>j<16. (js_nth spr j \<noteq> prevSpr pm ! j) = (j = i)) \<and> (\<forall>j<16. js_nth bg j = prevBg pm ! j) \<longrightarrow>
            set (dirtySprGroups (fst (PaletteManager_update pm bg spr))) = {i div 4}
          \<and> dirtyBgGroups (fst (PaletteManager_update pm bg spr)) = []
          \<and> snd (PaletteManager_update pm bg spr))
       \<and> PaletteManager_update (pm\<lparr>dirtyBgGroups := d1, dirtySprGroups := d2\<rparr>) bg spr
           = PaletteManager_update pm bg spr"
proof (intro conjI impI)
  assume h: "(\<forall>j<16. (js_nth bg j \<noteq> prevBg pm ! j) = (j = i)) \<and> (\<forall>j<16. js_nth spr j = prevSpr pm ! j)"
  have a: "{j. j < 16 \<and> js_nth bg j \<noteq> prevBg pm ! j} = {i}" using h assms(2) by auto
  have b: "{j. j < 16 \<and> js_nth spr j \<noteq> prevSpr pm ! j} = {}" using h by auto
  show g1: "set (dirtyBgGroups (fst (PaletteManager_update pm bg spr))) = {i div 4}"
    using update_dirtyBg[OF assms(1), of bg spr] a by simp
  have "set (dirtySprGroups (fst (PaletteManager_update pm bg spr))) = {}"
    using update_dirtySpr[OF assms(1), of bg spr] b by simp
  then show "dirtySprGroups (fst (PaletteManager_update pm bg spr)) = []" by simp
  show "snd (PaletteManager_update pm bg spr)" using g1 by (simp add: update_changed)
next
  assume h: "(\<forall>j<16. (js_nth spr j \<noteq> prevSpr pm ! j) = (j = i)) \<and> (\<forall>j<16. js_nth bg j = prevBg pm ! j)"
  have a: "{j. j < 16 \<and> js_nth spr j \<noteq> prevSpr pm ! j} = {i}" using h assms(2) by auto
  have b: "{j. j < 16 \<and> js_nth bg j \<noteq> prevBg pm ! j} = {}" using h by auto
  show g1: "set (dirtySprGroups (fst (PaletteManager_update pm bg spr))) = {i div 4}"
    using update_dirtySpr[OF assms(1), of bg spr] a by simp
  have "set (dirtyBgGroups (fst (PaletteManager_update pm bg spr))) = {}"
    using update_dirtyBg[OF assms(1), of bg spr] b by simp
  then show "dirtyBgGroups (fst (PaletteManager_update pm bg spr)) = []" by simp
  show "snd (PaletteManager_update pm bg spr)" using g1 by (simp add: update_changed)
next
  show "PaletteManager_update (pm\<lparr>dirtyBgGroups := d1, dirtySprGroups := d2\<rparr>) bg spr
           = PaletteManager_update pm bg spr"
    by (simp add: PaletteManager_update_def)
qed

theorem PaletteManager_update_single_entry_witness:
  "pm_wf settledPalettes \<and> (9 :: nat) < 16
   \<and> js_nth ((replicate 16 0)[9 := 255]) 9 = Some 255 \<and> prevBg settledPalettes ! 9 = Some 0
   \<and> set (dirtyBgGroups (fst (PaletteManager_update settledPalettes ((replicate 16 0)[9 := 255]) (replicate 16 0)))) = {2}
   \<and> dirtySprGroups (fst (PaletteManager_update settledPalettes ((replicate 16 0)[9 := 255]) (replicate 16 0))) = []
   \<and> snd (PaletteManager_update settledPalettes ((replicate 16 0)[9 := 255]) (replicate 16 0))"
proof -
  have h1: "\<forall>j<16. (js_nth ((replicate 16 0)[9 := 255]) j \<noteq> prevBg settledPalettes ! j) = (j = 9)"
    by (simp add: settledPalettes_prev js_nth_def nth_list_update)
  have h2: "\<forall>j<16. js_nth (replicate 16 0) j = prevSpr settledPalettes ! j"
    by (simp add: settledPalettes_prev js_nth_def)
  have n: "(9 :: nat) < 16" by simp
  show ?thesis
    using PaletteManager_update_single_entry[OF settledPalettes_wf n,
        of "(replicate 16 0)[9 := 255]" "replicate 16 0"] h1 h2 settledPalettes_wf
    by (simp add: settledPalettes_prev js_nth_def)
qed

section \<open>The tile-sheet cache\<close>

subsection \<open>Which sheets an update regenerates\<close>

lemma regen_fst:
  "set (fst (foldl (regenStep d c f b) acc gs)) = set (fst acc) \<union> (\<lambda>g. f + g) ` {g \<in> set gs. d g}"
  by (induction gs arbitrary: acc) (auto simp: regenStep_def setAdd_set)

lemma renderedSheets_append: "renderedSheets (xs @ ys) = renderedSheets xs @ renderedSheets ys"
  by (simp add: renderedSheets_def)

lemma renderedSheets_simps:
  "renderedSheets [] = []"
  "renderedSheets (RenderSheet s b c # es) = s # renderedSheets es"
  "renderedSheets (UpdateStylesheet # es) = renderedSheets es"
  "renderedSheets (ConsoleWarn # es) = renderedSheets es"
  by (simp_all add: renderedSheets_def)

lemma regen_snd:
  "set (renderedSheets (snd (foldl (regenStep d c f b) acc gs))) =
     set (renderedSheets (snd acc)) \<union> (\<lambda>g. f + g) ` {g \<in> set gs. d g}"
  by (induction gs arbitrary: acc)
     (auto simp: regenStep_def renderedSheets_append renderedSheets_simps)

lemma update_sheets:
  "set (updatedSheets (fst (TileCache_update tc st tiles pm bgBase sprBase sig))) =
     {g. g < 4 \<and> (g \<in> set (dirtyBgGroups pm) \<or> bankDirty tc st tiles sig bgBase \<or> bgBase \<noteq> prevBgBase tc)}
     \<union> (\<lambda>g. 4 + g) ` {g. g < 4 \<and> (g \<in> set (dirtySprGroups pm) \<or> bankDirty tc st tiles sig 0)}
     \<union> (\<lambda>g. 8 + g) ` {g. g < 4 \<and> (g \<in> set (dirtySprGroups pm) \<or> bankDirty tc st tiles sig 256)}"
  unfolding TileCache_update_def Let_def
  by (cases sig) (auto simp add: regen_fst bankDirty_def)

lemma update_rendered:
  "set (renderedSheets (snd (TileCache_update tc st tiles pm bgBase sprBase sig))) =
   set (updatedSheets (fst (TileCache_update tc st tiles pm bgBase sprBase sig)))"
  unfolding TileCache_update_def Let_def
  by (simp add: regen_fst regen_snd renderedSheets_append renderedSheets_simps)

lemma shift4: "(\<lambda>g. k + g) ` {g. g < (4::nat)} = {k..<k + 4}"
proof
  show "(\<lambda>g. k + g) ` {g. g < 4} \<subseteq> {k..<k + 4}" by auto
  show "{k..<k + 4} \<subseteq> (\<lambda>g. k + g) ` {g. g < 4}"
  proof
    fix x assume "x \<in> {k..<k + 4}"
    then have "x = k + (x - k)" "x - k < 4" by auto
    then show "x \<in> (\<lambda>g. k + g) ` {g. g < 4}" by blast
  qed
qed

subsection \<open>The bank signature\<close>

lemma updateRefs_fold:
  "n \<le> length prev \<Longrightarrow>
   foldl (\<lambda>refs i. refs[i := ref_at s i]) prev [0..<n] = map (ref_at s) [0..<n] @ drop n prev"
proof (induction n)
  case 0
  then show ?case by simp
next
  case (Suc n)
  then have "foldl (\<lambda>refs i. refs[i := ref_at s i]) prev [0..<Suc n]
      = (map (ref_at s) [0..<n] @ drop n prev)[n := ref_at s n]"
    by simp
  also have "\<dots> = map (ref_at s) [0..<n] @ (drop n prev)[0 := ref_at s n]"
    by (simp add: list_update_append)
  also have "(drop n prev)[0 := ref_at s n] = ref_at s n # drop (Suc n) prev"
    using Suc.prems by (cases "drop n prev") (auto simp: drop_Suc drop_tl)
  finally show ?case by simp
qed

lemma updateBankRefs_eq:
  "length prev = 8 \<Longrightarrow> updateBankRefs prev s = map (ref_at s) [0..<8]"
  using updateRefs_fold[of 8 prev s] by (simp add: updateBankRefs_def)

lemma ref_at_map: "ref_at (map f [0..<n]) i = (if i < n then f i else Undefined)"
  by (simp add: ref_at_def)

lemma ref_at_bankSig: "k < 8 \<Longrightarrow> ref_at (bankSig tiles) k = ref_at tiles (k * 64)"
  by (simp add: bankSig_def ref_at_map)

lemma ref_at_mem: "ref_at tiles i = Ref r \<Longrightarrow> Ref r \<in> set tiles"
  by (metis nth_mem ref_at_def tileref.distinct(5))

lemma checkBankDirty_iff:
  "checkBankDirty tc s base \<longleftrightarrow>
     (\<exists>i<4. ref_at s ((if 256 \<le> base then 4 else 0) + i) \<noteq> ref_at (prevBankRefs tc) ((if 256 \<le> base then 4 else 0) + i))"
  by (auto simp: checkBankDirty_def Let_def list_ex_iff)

subsection \<open>The checksum scan\<close>

lemma hashPix_stored: "uint (word_of_int (hashPix p) :: 32 word) = hashPix p"
  by (simp add: hashPix_def toUint32_def)

lemma chrStep_current:
  "current st tiles cs i \<Longrightarrow> chrStep st tiles (cs, d0, d1) i = (cs, d0, d1)"
  by (auto simp: chrStep_def current_def Let_def split: tileref.splits)

lemma chrStep_cases:
  "chrStep st tiles (cs, d0, d1) i = (cs, d0, d1)
   \<or> (\<exists>r. ref_at tiles i = Ref r \<and>
        chrStep st tiles (cs, d0, d1) i = (cs[i := word_of_int (hashPix (st r))], i < 256 \<or> d0, 256 \<le> i \<or> d1))"
  by (auto simp: chrStep_def Let_def split: tileref.splits)

lemma chrStep_makes_current:
  "i < length cs \<Longrightarrow> current st tiles (fst (chrStep st tiles (cs, d0, d1) i)) i"
  by (auto simp: chrStep_def Let_def current_def hashPix_stored split: tileref.splits)

lemma chrStep_other:
  "j \<noteq> i \<Longrightarrow> fst (chrStep st tiles (cs, d0, d1) i) ! j = cs ! j"
  by (auto simp: chrStep_def Let_def split: tileref.splits)

lemma chrStep_length:
  "length (fst (chrStep st tiles (cs, d0, d1) i)) = length cs"
  by (auto simp: chrStep_def Let_def split: tileref.splits)

lemma chrFold_current:
  "\<forall>i\<in>set ks. i < length cs \<Longrightarrow>
   length (fst (foldl (chrStep st tiles) (cs, d0, d1) ks)) = length cs
   \<and> (\<forall>i\<in>set ks. current st tiles (fst (foldl (chrStep st tiles) (cs, d0, d1) ks)) i)"
proof (induction ks arbitrary: d0 d1 rule: rev_induct)
  case Nil
  then show ?case by simp
next
  case (snoc x xs)
  obtain cs' e0 e1 where f: "foldl (chrStep st tiles) (cs, d0, d1) xs = (cs', e0, e1)"
    by (cases "foldl (chrStep st tiles) (cs, d0, d1) xs") auto
  have ih: "length cs' = length cs" "\<forall>i\<in>set xs. current st tiles cs' i"
    using snoc.IH[of d0 d1] snoc.prems f by auto
  have x: "x < length cs'" using snoc.prems ih by simp
  have l: "length (fst (chrStep st tiles (cs', e0, e1) x)) = length cs"
    using ih by (simp add: chrStep_length)
  have c: "\<forall>i\<in>set (xs @ [x]). current st tiles (fst (chrStep st tiles (cs', e0, e1) x)) i"
  proof
    fix i assume i: "i \<in> set (xs @ [x])"
    show "current st tiles (fst (chrStep st tiles (cs', e0, e1) x)) i"
    proof (cases "i = x")
      case True
      then show ?thesis using chrStep_makes_current[OF x] by simp
    next
      case False
      then have "i \<in> set xs" using i by simp
      then have "current st tiles cs' i" using ih by simp
      then show ?thesis
        using chrStep_other[OF False, of st tiles cs' e0 e1] by (simp add: current_def)
    qed
  qed
  show ?case using l c f by simp
qed

lemma chrFold_pt1_clean:
  "\<forall>i\<in>set ks. 256 \<le> i \<longrightarrow> current st tiles cs i \<Longrightarrow>
   snd (snd (foldl (chrStep st tiles) (cs, d0, d1) ks)) = d1"
proof (induction ks arbitrary: cs d0)
  case Nil
  then show ?case by simp
next
  case (Cons i ks)
  show ?case
  proof (cases "256 \<le> i")
    case True
    then have "chrStep st tiles (cs, d0, d1) i = (cs, d0, d1)"
      using Cons.prems by (simp add: chrStep_current)
    then show ?thesis using Cons by simp
  next
    case False
    obtain cs' e0 where s: "chrStep st tiles (cs, d0, d1) i = (cs', e0, d1)"
      using chrStep_cases[of st tiles cs d0 d1 i] False by auto
    have "\<forall>j\<in>set ks. 256 \<le> j \<longrightarrow> current st tiles cs' j"
    proof (intro ballI impI)
      fix j assume j: "j \<in> set ks" "256 \<le> j"
      then have "j \<noteq> i" using False by auto
      then have "cs' ! j = cs ! j" using chrStep_other[of j i st tiles cs d0 d1] s by simp
      then show "current st tiles cs' j" using Cons.prems j by (simp add: current_def)
    qed
    then show ?thesis using Cons.IH[of cs' e0] s by simp
  qed
qed

lemma chrFold_pt0_clean:
  "\<forall>i\<in>set ks. i < 256 \<longrightarrow> current st tiles cs i \<Longrightarrow>
   fst (snd (foldl (chrStep st tiles) (cs, d0, d1) ks)) = d0"
proof (induction ks arbitrary: cs d1)
  case Nil
  then show ?case by simp
next
  case (Cons i ks)
  show ?case
  proof (cases "i < 256")
    case True
    then have "chrStep st tiles (cs, d0, d1) i = (cs, d0, d1)"
      using Cons.prems by (simp add: chrStep_current)
    then show ?thesis using Cons by simp
  next
    case False
    obtain cs' e1 where s: "chrStep st tiles (cs, d0, d1) i = (cs', d0, e1)"
      using chrStep_cases[of st tiles cs d0 d1 i] False by auto
    have "\<forall>j\<in>set ks. j < 256 \<longrightarrow> current st tiles cs' j"
    proof (intro ballI impI)
      fix j assume j: "j \<in> set ks" "j < 256"
      then have "j \<noteq> i" using False by auto
      then have "cs' ! j = cs ! j" using chrStep_other[of j i st tiles cs d0 d1] s by simp
      then show "current st tiles cs' j" using Cons.prems j by (simp add: current_def)
    qed
    then show ?thesis using Cons.IH[of cs' e1] s by simp
  qed
qed

subsection \<open>The cache after an update\<close>

lemma update_fields:
  "prevBgBase (fst (TileCache_update tc st tiles pm bgBase sprBase sig)) = bgBase"
  "tileChecksums (fst (TileCache_update tc st tiles pm bgBase sprBase sig)) = fst (checkCHRDirty (tileChecksums tc) st tiles)"
  "prevBankRefs (fst (TileCache_update tc st tiles pm bgBase sprBase (Some s))) = updateBankRefs (prevBankRefs tc) s"
  by (simp_all add: TileCache_update_def Let_def)

lemma update_current:
  assumes "tc_wf tc"
  shows "tc_wf (fst (TileCache_update tc st tiles pm bgBase sprBase (Some s)))"
    and "i < 512 \<Longrightarrow> current st tiles (tileChecksums (fst (TileCache_update tc st tiles pm bgBase sprBase (Some s)))) i"
    and "prevBankRefs (fst (TileCache_update tc st tiles pm bgBase sprBase (Some s))) = map (ref_at s) [0..<8]"
proof -
  have w: "length (tileChecksums tc) = 512" "length (prevBankRefs tc) = 8"
    using assms by (simp_all add: tc_wf_def)
  have c: "length (fst (checkCHRDirty (tileChecksums tc) st tiles)) = 512
     \<and> (\<forall>i\<in>set [0..<512]. current st tiles (fst (checkCHRDirty (tileChecksums tc) st tiles)) i)"
    unfolding checkCHRDirty_def
    using chrFold_current[of "[0..<512]" "tileChecksums tc" st tiles False False] w by simp
  show "prevBankRefs (fst (TileCache_update tc st tiles pm bgBase sprBase (Some s))) = map (ref_at s) [0..<8]"
    using w by (simp add: update_fields updateBankRefs_eq)
  then show "tc_wf (fst (TileCache_update tc st tiles pm bgBase sprBase (Some s)))"
    using c by (simp add: tc_wf_def update_fields)
  show "i < 512 \<Longrightarrow> current st tiles (tileChecksums (fst (TileCache_update tc st tiles pm bgBase sprBase (Some s)))) i"
    using c by (simp add: update_fields)
qed

lemma TileCache_new_wf: "tc_wf TileCache_new"
  by (simp add: tc_wf_def TileCache_new_def)

subsection \<open>When a pattern table is dirty on the next call\<close>

lemma bankDirty_switch:
  assumes wf: "tc_wf tc0"
    and k: "k < 4"
    and d: "ref_at tiles' (((if 256 \<le> base then 4 else 0) + k) * 64) \<noteq> ref_at tiles (((if 256 \<le> base then 4 else 0) + k) * 64)"
  shows "bankDirty (fst (TileCache_update tc0 st tiles pm b sb (Some (bankSig tiles)))) st' tiles' (Some (bankSig tiles')) base"
proof -
  let ?s = "(if 256 \<le> base then 4 else 0 :: nat)"
  have k8: "?s + k < 8" using k by simp
  have "ref_at (bankSig tiles') (?s + k) \<noteq> ref_at (map (ref_at (bankSig tiles)) [0..<8]) (?s + k)"
    using d k8 by (simp add: ref_at_map ref_at_bankSig)
  then have "checkBankDirty (fst (TileCache_update tc0 st tiles pm b sb (Some (bankSig tiles)))) (bankSig tiles') base"
    unfolding checkBankDirty_iff update_current(3)[OF wf] using k by blast
  then show ?thesis by (simp add: bankDirty_def)
qed

lemma bankDirty_clean:
  assumes wf: "tc_wf tc0"
    and refs: "\<forall>i<512. (256 \<le> base \<longleftrightarrow> 256 \<le> i) \<longrightarrow> ref_at tiles' i = ref_at tiles i"
    and pix: "\<forall>r. Ref r \<in> set tiles \<longrightarrow> st' r = st r"
  shows "\<not> bankDirty (fst (TileCache_update tc0 st tiles pm b sb (Some (bankSig tiles)))) st' tiles' (Some (bankSig tiles')) base"
proof -
  let ?tc1 = "fst (TileCache_update tc0 st tiles pm b sb (Some (bankSig tiles)))"
  let ?s = "(if 256 \<le> base then 4 else 0 :: nat)"
  have sig: "\<not> checkBankDirty ?tc1 (bankSig tiles') base"
  proof -
    have "\<forall>k<4. ref_at (bankSig tiles') (?s + k) = ref_at (map (ref_at (bankSig tiles)) [0..<8]) (?s + k)"
    proof (intro allI impI)
      fix k :: nat assume k: "k < 4"
      then have k8: "?s + k < 8" by simp
      have i: "(?s + k) * 64 < 512" "(256 \<le> base) = (256 \<le> (?s + k) * 64)" using k by auto
      have "ref_at tiles' ((?s + k) * 64) = ref_at tiles ((?s + k) * 64)"
        using refs i by blast
      then show "ref_at (bankSig tiles') (?s + k) = ref_at (map (ref_at (bankSig tiles)) [0..<8]) (?s + k)"
        using k8 by (simp add: ref_at_map ref_at_bankSig)
    qed
    then show ?thesis
      unfolding checkBankDirty_iff update_current(3)[OF wf] by blast
  qed
  have cur: "\<forall>i<512. (256 \<le> base \<longleftrightarrow> 256 \<le> i) \<longrightarrow> current st' tiles' (tileChecksums ?tc1) i"
  proof (intro allI impI)
    fix i :: nat assume i: "i < 512" "(256 \<le> base) = (256 \<le> i)"
    have c: "current st tiles (tileChecksums ?tc1) i" using update_current(2)[OF wf i(1)] .
    have r: "ref_at tiles' i = ref_at tiles i" using refs i by blast
    show "current st' tiles' (tileChecksums ?tc1) i"
      unfolding current_def
    proof (intro allI impI)
      fix r' assume a: "ref_at tiles' i = Ref r'"
      then have b: "ref_at tiles i = Ref r'" using r by simp
      then have "st' r' = st r'" using pix ref_at_mem by blast
      then show "uint (tileChecksums ?tc1 ! i) = hashPix (st' r')"
        using c b by (simp add: current_def)
    qed
  qed
  have chr: "(if 256 \<le> base then snd (snd (checkCHRDirty (tileChecksums ?tc1) st' tiles'))
         else fst (snd (checkCHRDirty (tileChecksums ?tc1) st' tiles'))) = False"
  proof (cases "256 \<le> base")
    case True
    then have "\<forall>i\<in>set [0..<512]. 256 \<le> i \<longrightarrow> current st' tiles' (tileChecksums ?tc1) i"
      using cur by simp
    then show ?thesis
      using True chrFold_pt1_clean[of "[0..<512]" st' tiles' "tileChecksums ?tc1" False False]
      by (simp add: checkCHRDirty_def)
  next
    case False
    then have "\<forall>i\<in>set [0..<512]. i < 256 \<longrightarrow> current st' tiles' (tileChecksums ?tc1) i"
      using cur by auto
    then show ?thesis
      using False chrFold_pt0_clean[of "[0..<512]" st' tiles' "tileChecksums ?tc1" False False]
      by (simp add: checkCHRDirty_def)
  qed
  show ?thesis using sig chr by (simp add: bankDirty_def)
qed

lemma bankDirty_fresh:
  assumes "length tiles = 512" "\<forall>i<512. \<exists>r. tiles ! i = Ref r"
  shows "bankDirty TileCache_new st tiles (Some (bankSig tiles)) base"
proof -
  let ?s = "(if 256 \<le> base then 4 else 0 :: nat)"
  have s8: "?s < 8" "?s * 64 < 512" by simp_all
  have "\<exists>r. ref_at tiles (?s * 64) = Ref r"
    using assms s8(2) unfolding ref_at_def by presburger
  then obtain r where "ref_at (bankSig tiles) ?s = Ref r"
    using ref_at_bankSig[OF s8(1), of tiles] by auto
  moreover have "ref_at (prevBankRefs TileCache_new) ?s = Null"
    using s8(1) by (simp add: TileCache_new_def ref_at_def)
  ultimately have "ref_at (bankSig tiles) (?s + 0) \<noteq> ref_at (prevBankRefs TileCache_new) (?s + 0)"
    by simp
  then have "checkBankDirty TileCache_new (bankSig tiles) base"
    unfolding checkBankDirty_iff by (intro exI[of _ 0]) simp
  then show ?thesis by (simp add: bankDirty_def)
qed

subsection \<open>The concrete tile arrays\<close>

lemma fullTiles_facts:
  "length fullTiles = 512"
  "ref_at fullTiles i = (if i < 512 then Ref i else Undefined)"
  "Ref n \<in> set fullTiles \<longleftrightarrow> n < 512"
  by (auto simp: fullTiles_def ref_at_def)

lemma switchedTiles_ref:
  "ref_at (switchedTiles region) i =
     (if i < 512 then (if i div 64 = region then Ref (512 + i) else Ref i) else Undefined)"
  by (simp add: switchedTiles_def ref_at_def)

text \<open>
  C1. Take a freshly constructed cache and a freshly constructed palette tracker that has been
  updated with the frame's palettes, 512 populated tile records and their bank signature. The
  first \<open>TileCache.update\<close> regenerates all 12 sheets: \<open>updatedSheets\<close> holds every
  index 0..11. A second call with the same tiles, pixel contents, signature and pattern-table
  bases, after the tracker was updated again with the same palettes, regenerates no sheet:
  \<open>updatedSheets\<close> is empty.
\<close>

theorem TileCache_update_first_all_then_none:
  assumes "length tiles = 512" and "\<forall>i<512. \<exists>r. tiles ! i = Ref r"
  shows "let pm1 = fst (PaletteManager_update PaletteManager_new bgPal sprPal);
             r1 = TileCache_update TileCache_new st tiles pm1 bgBase sprBase (Some (bankSig tiles));
             pm2 = fst (PaletteManager_update pm1 bgPal sprPal);
             r2 = TileCache_update (fst r1) st tiles pm2 bgBase sprBase (Some (bankSig tiles))
         in set (updatedSheets (fst r1)) = {0..<12} \<and> set (renderedSheets (snd r1)) = {0..<12}
          \<and> updatedSheets (fst r2) = [] \<and> renderedSheets (snd r2) = []"
proof -
  let ?pm1 = "fst (PaletteManager_update PaletteManager_new bgPal sprPal)"
  let ?sig = "Some (bankSig tiles)"
  let ?r1 = "TileCache_update TileCache_new st tiles ?pm1 bgBase sprBase ?sig"
  let ?pm2 = "fst (PaletteManager_update ?pm1 bgPal sprPal)"
  let ?r2 = "TileCache_update (fst ?r1) st tiles ?pm2 bgBase sprBase ?sig"
  have d: "\<And>base. bankDirty TileCache_new st tiles ?sig base"
    using bankDirty_fresh[OF assms] .
  have "set (updatedSheets (fst ?r1)) = {g. g < 4} \<union> (\<lambda>g. 4 + g) ` {g. g < 4} \<union> (\<lambda>g. 8 + g) ` {g. g < 4}"
    unfolding update_sheets using d by simp
  also have "\<dots> = {0..<12}" unfolding shift4 by auto
  finally have s1: "set (updatedSheets (fst ?r1)) = {0..<12}" .
  have c: "\<And>base. \<not> bankDirty (fst ?r1) st tiles ?sig base"
    by (rule bankDirty_clean[OF TileCache_new_wf]) simp_all
  have p: "dirtyBgGroups ?pm2 = []" "dirtySprGroups ?pm2 = []"
    using update_twice_clean[OF PaletteManager_new_wf] by simp_all
  have b: "prevBgBase (fst ?r1) = bgBase" by (simp add: update_fields)
  have "set (updatedSheets (fst ?r2)) = {}"
    unfolding update_sheets using c p b by simp
  then have s2: "updatedSheets (fst ?r2) = []" by simp
  have "set (renderedSheets (snd ?r2)) = {}" unfolding update_rendered using s2 by simp
  then have s3: "renderedSheets (snd ?r2) = []" by simp
  show ?thesis
    unfolding Let_def using s1 s2 s3 by (simp add: update_rendered)
qed

theorem TileCache_update_first_all_then_none_witness:
  "length fullTiles = 512
   \<and> set (updatedSheets warmCache) = {0..<12}
   \<and> updatedSheets (fst (TileCache_update warmCache blankStore fullTiles resettledPalettes 0 0
                            (Some (bankSig fullTiles)))) = []"
proof -
  have h1: "length fullTiles = 512" by (simp add: fullTiles_def)
  have h2: "\<forall>i<512. \<exists>r. fullTiles ! i = Ref r" by (simp add: fullTiles_def)
  show ?thesis
    using TileCache_update_first_all_then_none[OF h1 h2, of "replicate 16 0" "replicate 16 0" blankStore 0 0]
      h1
    unfolding Let_def warmCache_def resettledPalettes_def settledPalettes_def
    by simp
qed

text \<open>
  C2. Two consecutive \<open>TileCache.update\<close> calls with unchanged palettes and the background
  pattern-table base 0. Between them the tile records of exactly one 1KB region of bank 0
  (64 tiles, the region's first tile among them) are replaced with new tile objects; every
  other tile record and the pixels of every old tile object stay as they were. Then the second
  call regenerates exactly the sheets 0..7: the four background sheets and the four sprite
  sheets of bank 0, and none of the four sprite sheets of bank 1.
\<close>

theorem TileCache_update_region_switch:
  assumes wf: "tc_wf tc0" "pm_wf pm0"
    and region: "region < 4"
    and fresh: "\<forall>i<512. i div 64 = region \<longrightarrow> (\<exists>n. ref_at tiles' i = Ref n \<and> Ref n \<notin> set tiles)"
    and others: "\<forall>i<512. i div 64 \<noteq> region \<longrightarrow> ref_at tiles' i = ref_at tiles i"
    and pix: "\<forall>r. Ref r \<in> set tiles \<longrightarrow> st' r = st r"
  shows "let pm1 = fst (PaletteManager_update pm0 bgPal sprPal);
             r1 = TileCache_update tc0 st tiles pm1 0 sprBase (Some (bankSig tiles));
             pm2 = fst (PaletteManager_update pm1 bgPal sprPal);
             r2 = TileCache_update (fst r1) st' tiles' pm2 0 sprBase (Some (bankSig tiles'))
         in set (updatedSheets (fst r2)) = {0..<8} \<and> set (renderedSheets (snd r2)) = {0..<8}"
proof -
  let ?pm1 = "fst (PaletteManager_update pm0 bgPal sprPal)"
  let ?r1 = "TileCache_update tc0 st tiles ?pm1 0 sprBase (Some (bankSig tiles))"
  let ?pm2 = "fst (PaletteManager_update ?pm1 bgPal sprPal)"
  let ?r2 = "TileCache_update (fst ?r1) st' tiles' ?pm2 0 sprBase (Some (bankSig tiles'))"
  have i: "region * 64 < 512" "(region * 64) div 64 = region" using region by auto
  obtain n where n: "ref_at tiles' (region * 64) = Ref n" "Ref n \<notin> set tiles"
    using fresh i by blast
  have "ref_at tiles (region * 64) \<noteq> Ref n" using n(2) ref_at_mem by blast
  then have ne: "ref_at tiles' (((if 256 \<le> (0::int) then 4 else 0) + region) * 64)
              \<noteq> ref_at tiles (((if 256 \<le> (0::int) then 4 else 0) + region) * 64)"
    using n(1) by simp
  have d0: "bankDirty (fst ?r1) st' tiles' (Some (bankSig tiles')) 0"
    using bankDirty_switch[OF wf(1) region ne] .
  have same: "\<forall>i<512. ((256::int) \<le> 256 \<longleftrightarrow> 256 \<le> i) \<longrightarrow> ref_at tiles' i = ref_at tiles i"
  proof (intro allI impI)
    fix i :: nat assume a: "i < 512" "((256::int) \<le> 256) = (256 \<le> i)"
    then have "4 \<le> i div 64" by simp
    then have "i div 64 \<noteq> region" using region by simp
    then show "ref_at tiles' i = ref_at tiles i" using others a by blast
  qed
  have d1: "\<not> bankDirty (fst ?r1) st' tiles' (Some (bankSig tiles')) 256"
    using bankDirty_clean[OF wf(1) same pix] .
  have p: "dirtyBgGroups ?pm2 = []" "dirtySprGroups ?pm2 = []"
    using update_twice_clean[OF wf(2)] by simp_all
  have "set (updatedSheets (fst ?r2)) = {g. g < 4} \<union> (\<lambda>g. 4 + g) ` {g. g < 4} \<union> (\<lambda>g. 8 + g) ` {}"
    unfolding update_sheets using d0 d1 p by simp
  also have "\<dots> = {0..<8}" unfolding shift4 by auto
  finally have s: "set (updatedSheets (fst ?r2)) = {0..<8}" .
  show ?thesis unfolding Let_def using s by (simp add: update_rendered)
qed

theorem TileCache_update_region_switch_witness:
  "tc_wf TileCache_new \<and> pm_wf PaletteManager_new \<and> (0 :: nat) < 4
   \<and> ref_at (switchedTiles 0) 0 = Ref 512 \<and> ref_at fullTiles 0 = Ref 0
   \<and> ref_at (switchedTiles 0) 64 = ref_at fullTiles 64
   \<and> set (updatedSheets (fst (TileCache_update warmCache blankStore (switchedTiles 0) resettledPalettes 0 0
                                 (Some (bankSig (switchedTiles 0)))))) = {0..<8}"
proof -
  have z: "(0 :: nat) < 4" by simp
  have h1: "\<forall>i<512. i div 64 = 0 \<longrightarrow> (\<exists>n. ref_at (switchedTiles 0) i = Ref n \<and> Ref n \<notin> set fullTiles)"
    by (simp add: switchedTiles_ref fullTiles_facts)
  have h2: "\<forall>i<512. i div 64 \<noteq> 0 \<longrightarrow> ref_at (switchedTiles 0) i = ref_at fullTiles i"
    by (simp add: switchedTiles_ref fullTiles_facts)
  have h3: "\<forall>r. Ref r \<in> set fullTiles \<longrightarrow> blankStore r = blankStore r" by simp
  show ?thesis
    using TileCache_update_region_switch[OF TileCache_new_wf PaletteManager_new_wf z h1 h2 h3,
        of "replicate 16 0" "replicate 16 0" 0]
      TileCache_new_wf PaletteManager_new_wf
    unfolding Let_def warmCache_def resettledPalettes_def settledPalettes_def
    by (simp add: switchedTiles_ref fullTiles_facts)
qed

text \<open>
  C10. After an update, \<open>sprSheetUpdated(g)\<close> is true exactly when the update rendered
  sprite sheet \<open>4 + g\<close> (group \<open>g\<close> of bank 0) or sprite sheet \<open>8 + g\<close> (group
  \<open>g\<close> of bank 1). The two banks are one answer: when only the bank-1 sheet was rendered,
  the query still reports an update for group \<open>g\<close>.
\<close>

theorem sprSheetUpdated_either_bank:
  "(sprSheetUpdated (fst (TileCache_update tc st tiles pm bgBase sprBase sig)) (int g)
      \<longleftrightarrow> 4 + g \<in> set (renderedSheets (snd (TileCache_update tc st tiles pm bgBase sprBase sig)))
        \<or> 8 + g \<in> set (renderedSheets (snd (TileCache_update tc st tiles pm bgBase sprBase sig))))
   \<and> (8 + g \<in> set (renderedSheets (snd (TileCache_update tc st tiles pm bgBase sprBase sig)))
        \<and> 4 + g \<notin> set (renderedSheets (snd (TileCache_update tc st tiles pm bgBase sprBase sig)))
      \<longrightarrow> sprSheetUpdated (fst (TileCache_update tc st tiles pm bgBase sprBase sig)) (int g))"
proof -
  have a: "nat (4 + int g) = 4 + g" "nat (8 + int g) = 8 + g" by simp_all
  have "sprSheetUpdated (fst (TileCache_update tc st tiles pm bgBase sprBase sig)) (int g)
      \<longleftrightarrow> 4 + g \<in> set (renderedSheets (snd (TileCache_update tc st tiles pm bgBase sprBase sig)))
        \<or> 8 + g \<in> set (renderedSheets (snd (TileCache_update tc st tiles pm bgBase sprBase sig)))"
    unfolding update_rendered by (simp add: sprSheetUpdated_def hasSheet_def a)
  then show ?thesis by blast
qed

lemma bank1_switch_sheets:
  "set (renderedSheets (snd (TileCache_update warmCache blankStore (switchedTiles 4) resettledPalettes 0 0
                               (Some (bankSig (switchedTiles 4)))))) = {8..<12}"
proof -
  let ?r1 = "TileCache_update TileCache_new blankStore fullTiles settledPalettes 0 0 (Some (bankSig fullTiles))"
  let ?r2 = "TileCache_update (fst ?r1) blankStore (switchedTiles 4) resettledPalettes 0 0
               (Some (bankSig (switchedTiles 4)))"
  have ne: "ref_at (switchedTiles 4) (((if 256 \<le> (256::int) then 4 else 0) + 0) * 64)
              \<noteq> ref_at fullTiles (((if 256 \<le> (256::int) then 4 else 0) + 0) * 64)"
    by (simp add: switchedTiles_ref fullTiles_facts)
  have z: "(0 :: nat) < 4" by simp
  have d1: "bankDirty (fst ?r1) blankStore (switchedTiles 4) (Some (bankSig (switchedTiles 4))) 256"
    using bankDirty_switch[OF TileCache_new_wf z ne] .
  have same: "\<forall>i<512. ((256::int) \<le> 0 \<longleftrightarrow> 256 \<le> i) \<longrightarrow> ref_at (switchedTiles 4) i = ref_at fullTiles i"
    by (auto simp: switchedTiles_ref fullTiles_facts)
  have pix: "\<forall>r. Ref r \<in> set fullTiles \<longrightarrow> blankStore r = blankStore r" by simp
  have d0: "\<not> bankDirty (fst ?r1) blankStore (switchedTiles 4) (Some (bankSig (switchedTiles 4))) 0"
    using bankDirty_clean[OF TileCache_new_wf same pix] .
  have p: "dirtyBgGroups resettledPalettes = []" "dirtySprGroups resettledPalettes = []"
    using update_twice_clean[OF PaletteManager_new_wf]
    unfolding resettledPalettes_def settledPalettes_def by simp_all
  have b: "prevBgBase (fst ?r1) = 0" by (simp add: update_fields)
  have "set (updatedSheets (fst ?r2)) = (\<lambda>g. 8 + g) ` {g. g < 4}"
    unfolding update_sheets using d0 d1 p b by simp
  also have "\<dots> = {8..<12}" unfolding shift4 by auto
  finally show ?thesis unfolding warmCache_def by (simp add: update_rendered)
qed

theorem sprSheetUpdated_either_bank_witness:
  "8 + 0 \<in> set (renderedSheets (snd (TileCache_update warmCache blankStore (switchedTiles 4) resettledPalettes 0 0
                               (Some (bankSig (switchedTiles 4))))))
   \<and> 4 + 0 \<notin> set (renderedSheets (snd (TileCache_update warmCache blankStore (switchedTiles 4) resettledPalettes 0 0
                               (Some (bankSig (switchedTiles 4))))))
   \<and> sprSheetUpdated (fst (TileCache_update warmCache blankStore (switchedTiles 4) resettledPalettes 0 0
                               (Some (bankSig (switchedTiles 4))))) (int 0)"
proof -
  have h: "8 + 0 \<in> set (renderedSheets (snd (TileCache_update warmCache blankStore (switchedTiles 4) resettledPalettes 0 0
                               (Some (bankSig (switchedTiles 4))))))
   \<and> 4 + 0 \<notin> set (renderedSheets (snd (TileCache_update warmCache blankStore (switchedTiles 4) resettledPalettes 0 0
                               (Some (bankSig (switchedTiles 4))))))"
    unfolding bank1_switch_sheets by simp
  show ?thesis
    using sprSheetUpdated_either_bank[of warmCache blankStore "switchedTiles 4" resettledPalettes 0 0
        "Some (bankSig (switchedTiles 4))" 0] h
    by blast
qed

section \<open>Iteration that can throw\<close>

lemma foldE_preserves:
  assumes "foldE f s xs = Inr s'" and "P s"
    and "\<forall>x\<in>set xs. \<forall>a b. P a \<longrightarrow> f a x = Inr b \<longrightarrow> P b"
  shows "P s'"
  using assms
proof (induction xs arbitrary: s)
  case Nil
  then show ?case by simp
next
  case (Cons x xs)
  obtain b where b: "f s x = Inr b" "foldE f b xs = Inr s'"
    using Cons.prems(1) by (cases "f s x") simp_all
  have pb: "P b"
    using Cons.prems(3)[rule_format, of x s b] Cons.prems(2) b(1) by simp
  have rest: "\<forall>y\<in>set xs. \<forall>a c. P a \<longrightarrow> f a y = Inr c \<longrightarrow> P c"
  proof (intro ballI allI impI)
    fix y a c
    assume "y \<in> set xs" and "P a" and "f a y = Inr c"
    then show "P c" using Cons.prems(3)[rule_format, of y a c] by simp
  qed
  show ?case by (rule Cons.IH[OF b(2) pb rest])
qed

lemma foldE_total:
  assumes "\<And>a x. x \<in> set xs \<Longrightarrow> \<exists>b. f a x = Inr b"
  shows "\<exists>s'. foldE f s xs = Inr s'"
  using assms
proof (induction xs arbitrary: s)
  case Nil
  then show ?case by simp
next
  case (Cons x xs)
  obtain b where b: "f s x = Inr b" using Cons.prems[of x s] by auto
  have "\<exists>s'. foldE f b xs = Inr s'" using Cons.IH[of b] Cons.prems by simp
  then show ?case using b by simp
qed

section \<open>The background layer\<close>

subsection \<open>What a quadrant update leaves alone\<close>

lemma updateQuadrant_other:
  assumes "updateQuadrant bg q' ntData tc = Inr bg'" and "q \<noteq> q'"
  shows "quadTileDivs bg' ! q = quadTileDivs bg ! q"
    and "prevTile bg' ! q = prevTile bg ! q"
    and "prevAttrib bg' ! q = prevAttrib bg ! q"
  using assms by (auto simp: updateQuadrant_def split: sum.splits prod.splits)

lemma updateQuadrant_frame:
  assumes "updateQuadrant bg q' ntData tc = Inr bg'"
  shows "quadLeft bg' = quadLeft bg" and "quadTop bg' = quadTop bg"
  using assms by (auto simp: updateQuadrant_def split: sum.splits prod.splits)

lemma quadrantStep_null: "lookupNameTable ppu q = None \<Longrightarrow> quadrantStep ppu tc bg q = Inr bg"
  by (simp add: quadrantStep_def)

lemma quadrantStep_keeps:
  assumes "lookupNameTable ppu q = None" and "quadrantStep ppu tc bg q' = Inr bg'"
  shows "quadTileDivs bg' ! q = quadTileDivs bg ! q
       \<and> prevTile bg' ! q = prevTile bg ! q
       \<and> prevAttrib bg' ! q = prevAttrib bg ! q"
proof (cases "q' = q")
  case True
  then show ?thesis using assms by (simp add: quadrantStep_def)
next
  case False
  then have ne: "q \<noteq> q'" by simp
  show ?thesis
  proof (cases "lookupNameTable ppu q'")
    case None
    then show ?thesis using assms by (simp add: quadrantStep_def)
  next
    case (Some a)
    obtain p nt where a: "a = (p, nt)" by (cases a)
    have u: "updateQuadrant (bg\<lparr>quadPhysNt := (quadPhysNt bg)[q' := Some p]\<rparr>) q' nt tc = Inr bg'"
      using assms(2) Some a by (simp add: quadrantStep_def)
    show ?thesis using updateQuadrant_other[OF u ne] by simp
  qed
qed

lemma quadrantStep_frame:
  assumes "quadrantStep ppu tc bg q' = Inr bg'"
  shows "quadLeft bg' = quadLeft bg \<and> quadTop bg' = quadTop bg"
proof (cases "lookupNameTable ppu q'")
  case None
  then show ?thesis using assms by (simp add: quadrantStep_def)
next
  case (Some a)
  obtain p nt where a: "a = (p, nt)" by (cases a)
  have u: "updateQuadrant (bg\<lparr>quadPhysNt := (quadPhysNt bg)[q' := Some p]\<rparr>) q' nt tc = Inr bg'"
    using assms Some a by (simp add: quadrantStep_def)
  show ?thesis using updateQuadrant_frame[OF u] by simp
qed

lemma placeFold_cells:
  "quadTileDivs (foldl (placeQuadrant x y) bg qs) = quadTileDivs bg
   \<and> prevTile (foldl (placeQuadrant x y) bg qs) = prevTile bg
   \<and> prevAttrib (foldl (placeQuadrant x y) bg qs) = prevAttrib bg"
  by (induction qs arbitrary: bg) (simp_all add: placeQuadrant_def Let_def)

lemma BGLayer_update_hidden:
  "\<not> bgVisible ppu \<Longrightarrow> BGLayer_update bg ppu tc = Inr (bg\<lparr>bgDisplay := ''none''\<rparr>)"
  by (simp add: BGLayer_update_def Let_def)

lemma BGLayer_update_keeps:
  assumes "lookupNameTable ppu q = None" and "BGLayer_update bg ppu tc = Inr bg'"
  shows "quadTileDivs bg' ! q = quadTileDivs bg ! q
       \<and> prevTile bg' ! q = prevTile bg ! q
       \<and> prevAttrib bg' ! q = prevAttrib bg ! q"
proof (cases "bgVisible ppu")
  case False
  then show ?thesis using assms(2) by (auto simp: BGLayer_update_hidden)
next
  case True
  let ?bg0 = "bg\<lparr>bgDisplay := []\<rparr>"
  obtain bg1 where f: "foldE (quadrantStep ppu tc) ?bg0 [0..<4] = Inr bg1"
    using assms(2) True by (auto simp: BGLayer_update_def Let_def split: sum.splits)
  have k: "quadTileDivs bg1 ! q = quadTileDivs ?bg0 ! q
       \<and> prevTile bg1 ! q = prevTile ?bg0 ! q
       \<and> prevAttrib bg1 ! q = prevAttrib ?bg0 ! q"
  proof (rule foldE_preserves[OF f])
    show "quadTileDivs ?bg0 ! q = quadTileDivs ?bg0 ! q
       \<and> prevTile ?bg0 ! q = prevTile ?bg0 ! q
       \<and> prevAttrib ?bg0 ! q = prevAttrib ?bg0 ! q" by simp
    show "\<forall>x\<in>set [0..<4]. \<forall>a b.
        quadTileDivs a ! q = quadTileDivs ?bg0 ! q
          \<and> prevTile a ! q = prevTile ?bg0 ! q
          \<and> prevAttrib a ! q = prevAttrib ?bg0 ! q \<longrightarrow>
        quadrantStep ppu tc a x = Inr b \<longrightarrow>
        quadTileDivs b ! q = quadTileDivs ?bg0 ! q
          \<and> prevTile b ! q = prevTile ?bg0 ! q
          \<and> prevAttrib b ! q = prevAttrib ?bg0 ! q"
    proof (intro ballI allI impI)
      fix x a b
      assume a: "quadTileDivs a ! q = quadTileDivs ?bg0 ! q
          \<and> prevTile a ! q = prevTile ?bg0 ! q
          \<and> prevAttrib a ! q = prevAttrib ?bg0 ! q"
        and b: "quadrantStep ppu tc a x = Inr b"
      show "quadTileDivs b ! q = quadTileDivs ?bg0 ! q
          \<and> prevTile b ! q = prevTile ?bg0 ! q
          \<and> prevAttrib b ! q = prevAttrib ?bg0 ! q"
        using quadrantStep_keeps[OF assms(1) b] a by simp
    qed
  qed
  show ?thesis
    using assms(2) True f k by (auto simp: BGLayer_update_def Let_def placeFold_cells)
qed

subsection \<open>When the updates return\<close>

lemma updateCell_total: "\<exists>r. updateCell tc (Some t) a st = Inr r"
  by (cases st) (auto simp: updateCell_def Let_def)

lemma cellStep_total:
  assumes "i < length (ntTile nt)"
  shows "\<exists>r. cellStep tc nt st i = Inr r"
proof -
  obtain pT pA els where st: "st = (pT, pA, els)" by (cases st)
  obtain r where "updateCell tc (Some (ntTile nt ! i)) (js_nth (ntAttrib nt) i) (pT ! i, pA ! i, els ! i) = Inr r"
    using updateCell_total by blast
  then show ?thesis using assms st by (cases r) (simp add: cellStep_def js_nth_def)
qed

lemma updateQuadrant_total:
  assumes "960 \<le> length (ntTile nt)"
  shows "\<exists>bg'. updateQuadrant bg q nt tc = Inr bg'"
proof -
  have "\<exists>s'. foldE (cellStep tc nt) (prevTile bg ! q, prevAttrib bg ! q, quadTileDivs bg ! q) [0..<960] = Inr s'"
  proof (rule foldE_total)
    fix a x assume "x \<in> set [0..<960]"
    then have "x < length (ntTile nt)" using assms by simp
    then show "\<exists>b. cellStep tc nt a x = Inr b" by (rule cellStep_total)
  qed
  then show ?thesis by (auto simp: updateQuadrant_def split: prod.splits)
qed

lemma lookupNameTable_mem:
  "lookupNameTable ppu q = Some (p, nt) \<Longrightarrow> Some nt \<in> set (nameTables ppu)"
  by (auto simp: lookupNameTable_def js_nth_def split: option.splits if_splits)
     (metis nth_mem)

lemma quadrantStep_total:
  assumes "snapshot_wf ppu"
  shows "\<exists>bg'. quadrantStep ppu tc bg q = Inr bg'"
proof (cases "lookupNameTable ppu q")
  case None
  then show ?thesis by (simp add: quadrantStep_def)
next
  case (Some a)
  obtain p nt where a: "a = (p, nt)" by (cases a)
  have "960 \<le> length (ntTile nt)"
    using lookupNameTable_mem[of ppu q p nt] Some a assms by (simp add: snapshot_wf_def)
  then show ?thesis using Some a updateQuadrant_total by (simp add: quadrantStep_def)
qed

lemma BGLayer_update_total:
  assumes "snapshot_wf ppu"
  shows "\<exists>bg'. BGLayer_update bg ppu tc = Inr bg'"
proof -
  have "\<exists>s'. foldE (quadrantStep ppu tc) (bg\<lparr>bgDisplay := []\<rparr>) [0..<4] = Inr s'"
    by (rule foldE_total) (rule quadrantStep_total[OF assms])
  then show ?thesis by (auto simp: BGLayer_update_def Let_def)
qed

lemma spriteStep_total:
  assumes "i < length (sprites ppu)"
  shows "\<exists>sl'. spriteStep ppu m sl i = Inr sl'"
  using assms by (simp add: spriteStep_def js_nth_def Let_def)

lemma SpriteLayer_update_total:
  assumes "snapshot_wf ppu"
  shows "\<exists>sl'. SpriteLayer_update sl ppu = Inr sl'"
proof (cases "spritesVisible ppu")
  case False
  then show ?thesis by (simp add: SpriteLayer_update_def Let_def)
next
  case True
  have "\<And>s0. \<exists>s'. foldE (spriteStep ppu (spriteSize ppu = 1)) s0 [0..<64] = Inr s'"
  proof (rule foldE_total)
    fix s0 a x assume "x \<in> set [0..<64]"
    then have "x < length (sprites ppu)" using assms by (simp add: snapshot_wf_def)
    then show "\<exists>b. spriteStep ppu (spriteSize ppu = 1) a x = Inr b" by (rule spriteStep_total)
  qed
  then show ?thesis using True by (simp add: SpriteLayer_update_def Let_def)
qed

subsection \<open>Where the quadrants are placed\<close>

lemma placeQuadrant_at:
  assumes "q < 4"
  shows "placeQuadrant x y bg q =
           bg\<lparr>quadLeft := (quadLeft bg)[q := Some (if int (q mod 2) * 256 + 256 \<le> x
                                                  then int (q mod 2) * 256 + 512 else int (q mod 2) * 256)],
              quadTop := (quadTop bg)[q := Some (if int (q div 2) * 240 + 240 \<le> y
                                                then int (q div 2) * 240 + 480 else int (q div 2) * 240)]\<rparr>"
proof -
  have q: "q = 0 \<or> q = 1 \<or> q = 2 \<or> q = 3" using assms by arith
  have a: "js_and (int q) 1 = int (q mod 2)"
    using q by (auto simp: js_and_def toInt32_id)
  have b: "js_shr (int q) 1 = int (q div 2)"
    using q by (auto simp: js_shr_def toInt32_id)
  show ?thesis unfolding placeQuadrant_def Let_def a b by simp
qed

lemma placeFold_at:
  assumes "length (quadLeft bg) = 4" "length (quadTop bg) = 4" "q < 4"
  shows "quadLeft (foldl (placeQuadrant x y) bg [0..<4]) ! q =
           Some (if int (q mod 2) * 256 + 256 \<le> x then int (q mod 2) * 256 + 512 else int (q mod 2) * 256)"
    and "quadTop (foldl (placeQuadrant x y) bg [0..<4]) ! q =
           Some (if int (q div 2) * 240 + 240 \<le> y then int (q div 2) * 240 + 480 else int (q div 2) * 240)"
    and "length (quadLeft (foldl (placeQuadrant x y) bg [0..<4])) = 4"
    and "length (quadTop (foldl (placeQuadrant x y) bg [0..<4])) = 4"
proof -
  have u: "[0..<4] = [0, 1, 2, 3]" by (simp add: upt_rec)
  have q: "q = 0 \<or> q = 1 \<or> q = 2 \<or> q = 3" using assms by arith
  have p: "\<And>b k. k < 4 \<Longrightarrow> placeQuadrant x y b k =
           b\<lparr>quadLeft := (quadLeft b)[k := Some (if int (k mod 2) * 256 + 256 \<le> x
                                                  then int (k mod 2) * 256 + 512 else int (k mod 2) * 256)],
              quadTop := (quadTop b)[k := Some (if int (k div 2) * 240 + 240 \<le> y
                                                then int (k div 2) * 240 + 480 else int (k div 2) * 240)]\<rparr>"
    by (rule placeQuadrant_at)
  show "quadLeft (foldl (placeQuadrant x y) bg [0..<4]) ! q =
           Some (if int (q mod 2) * 256 + 256 \<le> x then int (q mod 2) * 256 + 512 else int (q mod 2) * 256)"
    using q assms(1) unfolding u by (auto simp: p)
  show "quadTop (foldl (placeQuadrant x y) bg [0..<4]) ! q =
           Some (if int (q div 2) * 240 + 240 \<le> y then int (q div 2) * 240 + 480 else int (q div 2) * 240)"
    using q assms(2) unfolding u by (auto simp: p)
  show "length (quadLeft (foldl (placeQuadrant x y) bg [0..<4])) = 4"
    using assms(1) unfolding u by (simp add: p)
  show "length (quadTop (foldl (placeQuadrant x y) bg [0..<4])) = 4"
    using assms(2) unfolding u by (simp add: p)
qed

lemma BGLayer_update_visible:
  assumes "bgVisible ppu" and "BGLayer_update bg ppu tc = Inr bg'"
  shows "\<exists>bg1. quadLeft bg1 = quadLeft bg \<and> quadTop bg1 = quadTop bg \<and>
           bg' = (foldl (placeQuadrant (coarseX (scroll ppu) * 8 + fineX (scroll ppu) + nameTableH (scroll ppu) * 256)
                                       (coarseY (scroll ppu) * 8 + fineY (scroll ppu) + nameTableV (scroll ppu) * 240))
                        bg1 [0..<4])
                 \<lparr>bgTransform := Some (- (coarseX (scroll ppu) * 8 + fineX (scroll ppu) + nameTableH (scroll ppu) * 256),
                                       - (coarseY (scroll ppu) * 8 + fineY (scroll ppu) + nameTableV (scroll ppu) * 240))\<rparr>"
proof -
  let ?bg0 = "bg\<lparr>bgDisplay := []\<rparr>"
  obtain bg1 where f: "foldE (quadrantStep ppu tc) ?bg0 [0..<4] = Inr bg1"
    using assms by (auto simp: BGLayer_update_def Let_def split: sum.splits)
  have k: "quadLeft bg1 = quadLeft ?bg0 \<and> quadTop bg1 = quadTop ?bg0"
  proof (rule foldE_preserves[OF f])
    show "quadLeft ?bg0 = quadLeft ?bg0 \<and> quadTop ?bg0 = quadTop ?bg0" by simp
    show "\<forall>x\<in>set [0..<4]. \<forall>a b.
        quadLeft a = quadLeft ?bg0 \<and> quadTop a = quadTop ?bg0 \<longrightarrow>
        quadrantStep ppu tc a x = Inr b \<longrightarrow>
        quadLeft b = quadLeft ?bg0 \<and> quadTop b = quadTop ?bg0"
    proof (intro ballI allI impI)
      fix x a b
      assume a: "quadLeft a = quadLeft ?bg0 \<and> quadTop a = quadTop ?bg0"
        and b: "quadrantStep ppu tc a x = Inr b"
      show "quadLeft b = quadLeft ?bg0 \<and> quadTop b = quadTop ?bg0"
        using quadrantStep_frame[OF b] a by simp
    qed
  qed
  show ?thesis
    using assms f k by (intro exI[of _ bg1]) (auto simp: BGLayer_update_def Let_def)
qed

lemma BGLayer_update_placement:
  assumes "bgVisible ppu" and "bg_wf bg" and "q < 4" and "BGLayer_update bg ppu tc = Inr bg'"
  shows "quadLeft bg' ! q =
           Some (if int (q mod 2) * 256 + 256 \<le> coarseX (scroll ppu) * 8 + fineX (scroll ppu) + nameTableH (scroll ppu) * 256
                 then int (q mod 2) * 256 + 512 else int (q mod 2) * 256)"
    and "quadTop bg' ! q =
           Some (if int (q div 2) * 240 + 240 \<le> coarseY (scroll ppu) * 8 + fineY (scroll ppu) + nameTableV (scroll ppu) * 240
                 then int (q div 2) * 240 + 480 else int (q div 2) * 240)"
    and "length (quadLeft bg') = 4" and "length (quadTop bg') = 4"
    and "bgTransform bg' = Some (- (coarseX (scroll ppu) * 8 + fineX (scroll ppu) + nameTableH (scroll ppu) * 256),
                                 - (coarseY (scroll ppu) * 8 + fineY (scroll ppu) + nameTableV (scroll ppu) * 240))"
proof -
  obtain bg1 where b: "quadLeft bg1 = quadLeft bg" "quadTop bg1 = quadTop bg"
    "bg' = (foldl (placeQuadrant (coarseX (scroll ppu) * 8 + fineX (scroll ppu) + nameTableH (scroll ppu) * 256)
                                       (coarseY (scroll ppu) * 8 + fineY (scroll ppu) + nameTableV (scroll ppu) * 240))
                        bg1 [0..<4])
                 \<lparr>bgTransform := Some (- (coarseX (scroll ppu) * 8 + fineX (scroll ppu) + nameTableH (scroll ppu) * 256),
                                       - (coarseY (scroll ppu) * 8 + fineY (scroll ppu) + nameTableV (scroll ppu) * 240))\<rparr>"
    using BGLayer_update_visible[OF assms(1,4)] by blast
  have l: "length (quadLeft bg1) = 4" "length (quadTop bg1) = 4"
    using assms(2) b(1,2) by (simp_all add: bg_wf_def)
  show "quadLeft bg' ! q =
           Some (if int (q mod 2) * 256 + 256 \<le> coarseX (scroll ppu) * 8 + fineX (scroll ppu) + nameTableH (scroll ppu) * 256
                 then int (q mod 2) * 256 + 512 else int (q mod 2) * 256)"
    unfolding b(3) using placeFold_at(1)[OF l assms(3)] by simp
  show "quadTop bg' ! q =
           Some (if int (q div 2) * 240 + 240 \<le> coarseY (scroll ppu) * 8 + fineY (scroll ppu) + nameTableV (scroll ppu) * 240
                 then int (q div 2) * 240 + 480 else int (q div 2) * 240)"
    unfolding b(3) using placeFold_at(2)[OF l assms(3)] by simp
  show "length (quadLeft bg') = 4" unfolding b(3) using placeFold_at(3)[OF l assms(3)] by simp
  show "length (quadTop bg') = 4" unfolding b(3) using placeFold_at(4)[OF l assms(3)] by simp
  show "bgTransform bg' = Some (- (coarseX (scroll ppu) * 8 + fineX (scroll ppu) + nameTableH (scroll ppu) * 256),
                                 - (coarseY (scroll ppu) * 8 + fineY (scroll ppu) + nameTableV (scroll ppu) * 240))"
    unfolding b(3) by simp
qed

subsection \<open>The concrete snapshots\<close>

lemma BGLayer_new_wf: "bg_wf BGLayer_new"
  by (simp add: bg_wf_def BGLayer_new_def)

lemma SpriteLayer_new_wf: "sl_wf SpriteLayer_new"
  by (simp add: sl_wf_def SpriteLayer_new_def)

lemma CSSRenderer_new_wf: "renderer_wf CSSRenderer_new"
  by (simp add: renderer_wf_def CSSRenderer_new_def PaletteManager_new_wf TileCache_new_wf
      BGLayer_new_wf SpriteLayer_new_wf)

lemma emptyFrame_wf: "snapshot_wf emptyFrame"
  by (simp add: snapshot_wf_def emptyFrame_def)

lemma scrolledFrame_wf: "snapshot_wf scrolledFrame"
  by (simp add: snapshot_wf_def scrolledFrame_def emptyFrame_def)

lemma scrolledFrame_scroll:
  "bgVisible scrolledFrame"
  "coarseX (scroll scrolledFrame) = 10" "fineX (scroll scrolledFrame) = 3"
  "nameTableH (scroll scrolledFrame) = 1"
  "coarseY (scroll scrolledFrame) = 0" "fineY (scroll scrolledFrame) = 0"
  "nameTableV (scroll scrolledFrame) = 0"
  by (simp_all add: scrolledFrame_def emptyFrame_def)

lemma emptyFrame_lookup: "q < 4 \<Longrightarrow> lookupNameTable emptyFrame q = None"
proof -
  assume "q < 4"
  then have "q = 0 \<or> q = 1 \<or> q = 2 \<or> q = 3" by arith
  then show ?thesis
    by (auto simp: lookupNameTable_def emptyFrame_def js_nth_def)
qed

text \<open>
  C8. In a frame in which the mirror map sends the logical quadrant \<open>q\<close> to an absent
  physical nametable, the step of \<open>BGLayer.update\<close> for \<open>q\<close> changes nothing and
  raises no error, the whole update returns for every well-formed snapshot, and after the
  update the quadrant's previous-tile and previous-attribute baselines and the rendered state of
  each of its cells (tile position, palette class, metadata) are what they were.
\<close>

theorem BGLayer_update_null_nametable:
  assumes "q < 4" and "lookupNameTable ppu q = None" and "bg_wf bg"
  shows "quadrantStep ppu tc bg q = Inr bg
       \<and> (snapshot_wf ppu \<longrightarrow> (\<exists>bg'. BGLayer_update bg ppu tc = Inr bg'))
       \<and> (\<forall>bg'. BGLayer_update bg ppu tc = Inr bg' \<longrightarrow>
             quadTileDivs bg' ! q = quadTileDivs bg ! q
           \<and> prevTile bg' ! q = prevTile bg ! q
           \<and> prevAttrib bg' ! q = prevAttrib bg ! q)"
proof (intro conjI impI allI)
  show "quadrantStep ppu tc bg q = Inr bg" using assms(2) by (rule quadrantStep_null)
next
  assume "snapshot_wf ppu"
  then show "\<exists>bg'. BGLayer_update bg ppu tc = Inr bg'" by (rule BGLayer_update_total)
next
  fix bg' assume u: "BGLayer_update bg ppu tc = Inr bg'"
  show "quadTileDivs bg' ! q = quadTileDivs bg ! q"
    and "prevTile bg' ! q = prevTile bg ! q"
    and "prevAttrib bg' ! q = prevAttrib bg ! q"
    using BGLayer_update_keeps[OF assms(2) u] by simp_all
qed

theorem BGLayer_update_null_nametable_witness:
  "(2 :: nat) < 4 \<and> lookupNameTable emptyFrame 2 = None
   \<and> quadrantStep emptyFrame warmCache BGLayer_new 2 = Inr BGLayer_new
   \<and> (\<exists>bg'. BGLayer_update BGLayer_new emptyFrame warmCache = Inr bg'
         \<and> quadTileDivs bg' ! 2 = quadTileDivs BGLayer_new ! 2
         \<and> prevTile bg' ! 2 = prevTile BGLayer_new ! 2
         \<and> prevAttrib bg' ! 2 = prevAttrib BGLayer_new ! 2)"
proof -
  have q: "(2 :: nat) < 4" by simp
  have l: "lookupNameTable emptyFrame 2 = None" using emptyFrame_lookup[OF q] .
  show ?thesis
    using BGLayer_update_null_nametable[OF q l BGLayer_new_wf, of warmCache] emptyFrame_wf l
    by auto
qed

text \<open>
  C6, as the code has it. When the background is not visible, \<open>BGLayer.update\<close> hides
  the layer and returns before the quadrants are placed: it changes nothing else, and the
  quadrants keep the positions they had. When the background is visible:
  for every quadrant \<open>q\<close> (column \<open>c = q mod 2\<close>, row \<open>r = q div 2\<close>) and every
  scroll position, the update places the quadrant at \<open>x = c*256 + 512\<close> when
  \<open>c*256 + 256 \<le> scrollX\<close> and at \<open>x = c*256\<close> otherwise, and at
  \<open>y = r*240 + 480\<close> when \<open>r*240 + 240 \<le> scrollY\<close> and at \<open>y = r*240\<close>
  otherwise; there are 4 quadrant positions before and after.
\<close>

theorem BGLayer_update_places_quadrants:
  assumes "bg_wf bg" and "q < 4"
  shows "(bgVisible ppu \<longrightarrow>
            (snapshot_wf ppu \<longrightarrow> (\<exists>bg'. BGLayer_update bg ppu tc = Inr bg'))
          \<and> (\<forall>bg'. BGLayer_update bg ppu tc = Inr bg' \<longrightarrow>
                quadLeft bg' ! q =
                  Some (if int (q mod 2) * 256 + 256
                             \<le> coarseX (scroll ppu) * 8 + fineX (scroll ppu) + nameTableH (scroll ppu) * 256
                        then int (q mod 2) * 256 + 512 else int (q mod 2) * 256)
              \<and> quadTop bg' ! q =
                  Some (if int (q div 2) * 240 + 240
                             \<le> coarseY (scroll ppu) * 8 + fineY (scroll ppu) + nameTableV (scroll ppu) * 240
                        then int (q div 2) * 240 + 480 else int (q div 2) * 240)
              \<and> length (quadLeft bg') = 4 \<and> length (quadTop bg') = 4))
       \<and> (\<not> bgVisible ppu \<longrightarrow> BGLayer_update bg ppu tc = Inr (bg\<lparr>bgDisplay := ''none''\<rparr>))"
proof (intro conjI impI allI)
  assume "snapshot_wf ppu"
  then show "\<exists>bg'. BGLayer_update bg ppu tc = Inr bg'" by (rule BGLayer_update_total)
next
  fix bg' assume v: "bgVisible ppu" and u: "BGLayer_update bg ppu tc = Inr bg'"
  show "quadLeft bg' ! q =
               Some (if int (q mod 2) * 256 + 256
                          \<le> coarseX (scroll ppu) * 8 + fineX (scroll ppu) + nameTableH (scroll ppu) * 256
                     then int (q mod 2) * 256 + 512 else int (q mod 2) * 256)"
    by (rule BGLayer_update_placement(1)[OF v assms u])
  show "quadTop bg' ! q =
               Some (if int (q div 2) * 240 + 240
                          \<le> coarseY (scroll ppu) * 8 + fineY (scroll ppu) + nameTableV (scroll ppu) * 240
                     then int (q div 2) * 240 + 480 else int (q div 2) * 240)"
    by (rule BGLayer_update_placement(2)[OF v assms u])
  show "length (quadLeft bg') = 4" by (rule BGLayer_update_placement(3)[OF v assms u])
  show "length (quadTop bg') = 4" by (rule BGLayer_update_placement(4)[OF v assms u])
next
  assume "\<not> bgVisible ppu"
  then show "BGLayer_update bg ppu tc = Inr (bg\<lparr>bgDisplay := ''none''\<rparr>)"
    by (rule BGLayer_update_hidden)
qed

theorem BGLayer_update_places_quadrants_witness:
  "bgVisible scrolledFrame \<and> (0 :: nat) < 4
   \<and> (\<exists>bg'. BGLayer_update BGLayer_new scrolledFrame warmCache = Inr bg'
         \<and> quadLeft bg' ! 0 = Some 512 \<and> quadTop bg' ! 0 = Some 0
         \<and> length (quadLeft bg') = 4 \<and> length (quadTop bg') = 4)"
proof -
  have q: "(0 :: nat) < 4" by simp
  show ?thesis
    using BGLayer_update_places_quadrants[OF BGLayer_new_wf q, of scrolledFrame warmCache]
      scrolledFrame_wf scrolledFrame_scroll
    by auto
qed

text \<open>
  C6 as stated fails on a frame with the background switched off. The snapshot
  \<open>hiddenFrame\<close> has \<open>scrollX = 10*8 + 3 + 1*256 = 339\<close>, so the trailing edge of
  quadrant 0 (\<open>0*256 + 256\<close>) is behind the scroll origin and the claim puts the quadrant
  at \<open>x = 512\<close>; the update only hides the layer and quadrant 0 stays without a position.
\<close>

theorem BGLayer_update_hidden_counterexample:
  "BGLayer_update BGLayer_new hiddenFrame warmCache = Inr (BGLayer_new\<lparr>bgDisplay := ''none''\<rparr>)
   \<and> quadLeft (BGLayer_new\<lparr>bgDisplay := ''none''\<rparr>) ! 0 = None
   \<and> coarseX (scroll hiddenFrame) * 8 + fineX (scroll hiddenFrame) + nameTableH (scroll hiddenFrame) * 256 = 339
   \<and> (0 :: int) * 256 + 256 \<le> 339"
  by (simp add: BGLayer_update_hidden hiddenFrame_def scrolledFrame_def emptyFrame_def BGLayer_new_def)

text \<open>
  C7. For every well-formed snapshot, \<open>renderFrame\<close> returns and the scroll position it
  computes is \<open>coarse*8 + fine + nametable_select*dimension\<close>, with dimension 256 for X
  and 240 for Y; the background layer, when visible, is translated by the negative of the same
  position. With coarseX = 10, fineX = 3 and nameTableH = 1 the scroll X is 339.
\<close>

theorem renderFrame_scroll_position:
  assumes "snapshot_wf ppu" and "renderer_wf r"
  shows "\<exists>r' es vp. renderFrame r ppu = Inr (r', es) \<and> viewportData r' = Some vp
       \<and> vpScrollX vp = coarseX (scroll ppu) * 8 + fineX (scroll ppu) + nameTableH (scroll ppu) * 256
       \<and> vpScrollY vp = coarseY (scroll ppu) * 8 + fineY (scroll ppu) + nameTableV (scroll ppu) * 240
       \<and> (bgVisible ppu \<longrightarrow> bgTransform (bgLayer r') = Some (- vpScrollX vp, - vpScrollY vp))
       \<and> (coarseX (scroll ppu) = 10 \<and> fineX (scroll ppu) = 3 \<and> nameTableH (scroll ppu) = 1
            \<longrightarrow> vpScrollX vp = 339)"
proof -
  let ?pm = "fst (PaletteManager_update (paletteManager r) (bgPalette ppu) (sprPalette ppu))"
  let ?tcu = "TileCache_update (tileCache r) (tileStore ppu) (ptTile ppu) ?pm
                  (bgPatternBase ppu) (sprPatternBase ppu) (chrBankSignature ppu)"
  obtain bg where bg: "BGLayer_update (bgLayer r) ppu (fst ?tcu) = Inr bg"
    using BGLayer_update_total[OF assms(1)] by blast
  obtain sl where sl: "SpriteLayer_update (spriteLayer r) ppu = Inr sl"
    using SpriteLayer_update_total[OF assms(1)] by blast
  have wf: "bg_wf (bgLayer r)" using assms(2) by (simp add: renderer_wf_def)
  have z: "(0 :: nat) < 4" by simp
  have t: "bgVisible ppu \<longrightarrow> bgTransform bg =
      Some (- (coarseX (scroll ppu) * 8 + fineX (scroll ppu) + nameTableH (scroll ppu) * 256),
            - (coarseY (scroll ppu) * 8 + fineY (scroll ppu) + nameTableV (scroll ppu) * 240))"
    using BGLayer_update_placement(5)[OF _ wf z bg] by blast
  show ?thesis
    using bg sl t by (simp add: renderFrame_def Let_def)
qed

theorem renderFrame_scroll_position_witness:
  "coarseX (scroll scrolledFrame) = 10 \<and> fineX (scroll scrolledFrame) = 3
   \<and> nameTableH (scroll scrolledFrame) = 1
   \<and> (\<exists>r' es vp. renderFrame CSSRenderer_new scrolledFrame = Inr (r', es) \<and> viewportData r' = Some vp
         \<and> vpScrollX vp = 339 \<and> vpScrollY vp = 0
         \<and> bgTransform (bgLayer r') = Some (- 339, 0))"
proof -
  obtain r' es vp where a: "renderFrame CSSRenderer_new scrolledFrame = Inr (r', es)"
      "viewportData r' = Some vp"
      "vpScrollX vp = coarseX (scroll scrolledFrame) * 8 + fineX (scroll scrolledFrame) + nameTableH (scroll scrolledFrame) * 256"
      "vpScrollY vp = coarseY (scroll scrolledFrame) * 8 + fineY (scroll scrolledFrame) + nameTableV (scroll scrolledFrame) * 240"
      "bgVisible scrolledFrame \<longrightarrow> bgTransform (bgLayer r') = Some (- vpScrollX vp, - vpScrollY vp)"
    using renderFrame_scroll_position[OF scrolledFrame_wf CSSRenderer_new_wf] by blast
  have "vpScrollX vp = 339" "vpScrollY vp = 0" "bgTransform (bgLayer r') = Some (- 339, 0)"
    using a(3,4,5) by (simp_all add: scrolledFrame_scroll)
  then show ?thesis using a(1,2) scrolledFrame_scroll by blast
qed

section \<open>The sprite layer\<close>











subsection \<open>What the step for one sprite leaves alone\<close>






end
